theory Spec2Isabelle
  imports Main "HOL-Library.Word"
begin

section \<open>JavaScript strings\<close>

text \<open>
  A JavaScript string is a sequence of UTF-16 code units. Literals of the source that are
  plain ASCII are written through \<open>js\<close>; the emoji literals are written as their code units.
\<close>

type_synonym jsstring = "16 word list"

definition js :: "string \<Rightarrow> jsstring" where
  "js s = map (\<lambda>c. of_nat (of_char c)) s"

text \<open>
  \<open>String.prototype.trim\<close> removes ECMAScript WhiteSpace and LineTerminator code units from
  both ends: TAB, LF, VT, FF, CR, SPACE, NBSP, U+1680, U+2000 to U+200A, U+2028, U+2029,
  U+202F, U+205F, U+3000 and U+FEFF.
\<close>

definition is_white_space :: "16 word \<Rightarrow> bool" where
  "is_white_space c =
     (c \<in> set [0x09, 0x0A, 0x0B, 0x0C, 0x0D, 0x20, 0xA0, 0x1680, 0x2028, 0x2029,
                0x202F, 0x205F, 0x3000, 0xFEFF]
      \<or> (0x2000 \<le> c \<and> c \<le> 0x200A))"

definition trim :: "jsstring \<Rightarrow> jsstring" where
  "trim s = rev (dropWhile is_white_space (rev (dropWhile is_white_space s)))"

text \<open>A string is truthy exactly when it is not empty.\<close>

definition truthy :: "jsstring \<Rightarrow> bool" where
  "truthy s = (s \<noteq> [])"

text \<open>A nullable string (\<open>null\<close> or \<open>undefined\<close> is \<open>None\<close>) is truthy when present and non-empty.\<close>

definition truthy_opt :: "jsstring option \<Rightarrow> bool" where
  "truthy_opt v = (case v of None \<Rightarrow> False | Some s \<Rightarrow> truthy s)"


section \<open>Configuration\<close>

text \<open>
  \<^verbatim>\<open>const API_BASE = process.env.REACT_APP_API_URL || 'http://localhost:8001';\<close>
  The environment variable is a parameter: \<open>None\<close> when it is unset. An empty string is
  falsy, so it selects the default as well.
\<close>

definition API_BASE :: "jsstring option \<Rightarrow> jsstring" where
  "API_BASE env =
     (case env of
        None \<Rightarrow> js ''http://localhost:8001''
      | Some u \<Rightarrow> if truthy u then u else js ''http://localhost:8001'')"

text \<open>
  The README's table of environment variables documents the default of
  \<open>REACT_APP_API_URL\<close> as \<^verbatim>\<open>http://localhost:8000\<close>, the address it also gives for the API.
\<close>

definition README_default_api_url :: jsstring where
  "README_default_api_url = js ''http://localhost:8000''"


section \<open>Data received from the backend\<close>

record model_info =
  name :: jsstring
  description :: jsstring
  cost_tier :: jsstring
  use_case :: jsstring
  context_window :: int

record progress_snapshot =
  stage :: jsstring
  message :: jsstring
  percent :: int

record scraped_page =
  url :: jsstring
  title :: "jsstring option"
  depth :: int

record page_summary =
  summary_url :: jsstring
  summary_title :: jsstring
  summary :: jsstring

text \<open>
  The job snapshot that \<^verbatim>\<open>GET /research/{job_id}\<close> answers with. A property that is missing
  or \<open>null\<close> is \<open>None\<close>. The field \<open>job.error\<close> is called \<open>job_error\<close> here: \<open>error\<close> is the
  name of the application's own state variable.
\<close>

record job_snapshot =
  status :: "jsstring option"
  progress :: "progress_snapshot option"
  pages_scraped :: "scraped_page list option"
  summaries :: "page_summary list option"
  report :: "jsstring option"
  job_error :: "jsstring option"


section \<open>ProgressBar\<close>

text \<open>
  The object literal \<open>stageEmoji\<close>, in the order of the source. The values are the emoji of
  the source as UTF-16: U+1F680, U+1F577 U+FE0F, U+1F4DD, U+1F5C2 U+FE0F, U+1F4CA, U+2705 and
  U+274C.
\<close>

definition stageEmoji :: "(jsstring \<times> jsstring) list" where
  "stageEmoji =
     [(js ''initializing'', [0xD83D, 0xDE80]),
      (js ''scraping'', [0xD83D, 0xDD77, 0xFE0F]),
      (js ''summarizing'', [0xD83D, 0xDCDD]),
      (js ''categorizing'', [0xD83D, 0xDDC2, 0xFE0F]),
      (js ''reporting'', [0xD83D, 0xDCCA]),
      (js ''complete'', [0x2705]),
      (js ''error'', [0x274C])]"

text \<open>
  A property read on an object literal that misses the object's own keys continues in
  \<open>Object.prototype\<close>, whose members are functions and objects, never strings.
\<close>

definition object_prototype_keys :: "jsstring list" where
  "object_prototype_keys =
     [js ''constructor'', js ''__proto__'', js ''__defineGetter__'', js ''__defineSetter__'',
      js ''__lookupGetter__'', js ''__lookupSetter__'', js ''hasOwnProperty'',
      js ''isPrototypeOf'', js ''propertyIsEnumerable'', js ''toLocaleString'',
      js ''toString'', js ''valueOf'']"

datatype property_value = Own jsstring | Inherited | Undefined

definition get_property :: "(jsstring \<times> jsstring) list \<Rightarrow> jsstring \<Rightarrow> property_value" where
  "get_property obj k =
     (case map_of obj k of
        Some v \<Rightarrow> Own v
      | None \<Rightarrow> if k \<in> set object_prototype_keys then Inherited else Undefined)"

text \<open>
  \<^verbatim>\<open>{stageEmoji[progress.stage] || '...'}\<close> with the hourglass U+23F3 as the fallback. An
  inherited member is truthy and is handed to React as it is; it is not a string.
\<close>

datatype emoji_cell = Emoji jsstring | Not_a_string

definition progress_emoji :: "progress_snapshot \<Rightarrow> emoji_cell" where
  "progress_emoji p =
     (case get_property stageEmoji (stage p) of
        Own v \<Rightarrow> if truthy v then Emoji v else Emoji [0x23F3]
      | Inherited \<Rightarrow> Not_a_string
      | Undefined \<Rightarrow> Emoji [0x23F3])"


section \<open>QuestionInput\<close>

text \<open>
  The entries of the \<open>questions\<close> array. Writing past the end of a JavaScript array leaves
  holes; spreading an array (\<^verbatim>\<open>[...questions]\<close>) reads a hole as \<open>undefined\<close>, while \<open>filter\<close>
  and \<open>map\<close> pass holes over without calling their callback.
\<close>

datatype question = Str jsstring | Undef | Hole

fun spread_entry :: "question \<Rightarrow> question" where
  "spread_entry Hole = Undef"
| "spread_entry q = q"

definition spread :: "question list \<Rightarrow> question list" where
  "spread qs = map spread_entry qs"

text \<open>\<^verbatim>\<open>setQuestions([...questions, ''])\<close>\<close>

definition addQuestion :: "question list \<Rightarrow> question list" where
  "addQuestion qs = spread qs @ [Str []]"

text \<open>
  \<^verbatim>\<open>const updated = [...questions]; updated[index] = value; setQuestions(updated);\<close>
  An index at or past the length extends the array, with holes in between.
\<close>

definition updateQuestion :: "nat \<Rightarrow> jsstring \<Rightarrow> question list \<Rightarrow> question list" where
  "updateQuestion index v qs =
     (let updated = spread qs in
      if index < length updated then updated[index := Str v]
      else updated @ replicate (index - length updated) Hole @ [Str v])"

text \<open>
  \<^verbatim>\<open>questions.filter((_, i) => i !== index)\<close>: the entries at the other indices, holes
  left out. The first argument counts the index of the head.
\<close>

fun filter_other_indices :: "nat \<Rightarrow> nat \<Rightarrow> question list \<Rightarrow> question list" where
  "filter_other_indices i index [] = []"
| "filter_other_indices i index (q # qs) =
     (if q \<noteq> Hole \<and> i \<noteq> index then q # filter_other_indices (Suc i) index qs
      else filter_other_indices (Suc i) index qs)"

definition removeQuestion :: "nat \<Rightarrow> question list \<Rightarrow> question list" where
  "removeQuestion index qs =
     (if length qs > 1 then filter_other_indices 0 index qs else qs)"

text \<open>
  \<^verbatim>\<open>questions.map((q, i) => ...)\<close> renders one row for every entry that is not a hole; the
  rows are listed with their indices. The remove button of every row carries
  \<^verbatim>\<open>disabled={questions.length === 1}\<close>.
\<close>

fun rows_from :: "nat \<Rightarrow> question list \<Rightarrow> (nat \<times> question) list" where
  "rows_from i [] = []"
| "rows_from i (q # qs) =
     (if q = Hole then rows_from (Suc i) qs else (i, q) # rows_from (Suc i) qs)"

definition question_rows :: "question list \<Rightarrow> (nat \<times> question) list" where
  "question_rows qs = rows_from 0 qs"

definition remove_disabled :: "question list \<Rightarrow> bool" where
  "remove_disabled qs = (length qs = 1)"


section \<open>App\<close>

text \<open>The ten state variables of \<open>App\<close>, under the names of their \<open>useState\<close> declarations.\<close>

record app_state =
  websiteUrl :: jsstring
  questions :: "question list"
  selectedModel :: jsstring
  models :: "(jsstring \<times> model_info) list"
  maxPages :: int
  maxDepth :: int
  currentJob :: "job_snapshot option"
  isLoading :: bool
  error :: "jsstring option"
  showSettings :: bool

definition initial_state :: app_state where
  "initial_state =
     \<lparr>websiteUrl = [], questions = [Str []],
      selectedModel = js ''claude-sonnet-4-20250514'', models = [],
      maxPages = 30, maxDepth = 2, currentJob = None, isLoading = False,
      error = None, showSettings = False\<rparr>"

subsection \<open>Requests and timers\<close>

text \<open>
  The body of \<^verbatim>\<open>POST /research\<close>. Its \<open>questions\<close> property is called \<open>body_questions\<close>;
  it holds the strings that passed the filter.
\<close>

record research_body =
  website_url :: jsstring
  body_questions :: "jsstring list"
  model :: jsstring
  max_pages :: int
  max_depth :: int

datatype request = GET jsstring | POST jsstring research_body

text \<open>\<^verbatim>\<open>setTimeout(() => pollJobStatus(jobId), 2000)\<close>: the delay in milliseconds and the job.\<close>

record timer =
  delay :: nat
  timer_job :: jsstring

text \<open>The mount effect: \<^verbatim>\<open>fetch(`${API_BASE}/models`)\<close>.\<close>

definition models_request :: "jsstring option \<Rightarrow> request" where
  "models_request env = GET (API_BASE env @ js ''/models'')"

subsection \<open>pollJobStatus\<close>

text \<open>
  The call issues \<^verbatim>\<open>fetch(`${API_BASE}/research/${jobId}`)\<close> and suspends. What comes back
  is either a rejection (of \<open>fetch\<close> or of \<open>res.json()\<close>), the JSON value \<open>null\<close>, or a JSON
  object, read as a job snapshot. The response's \<open>ok\<close> flag is not looked at.
\<close>

definition pollJobStatus_request :: "jsstring option \<Rightarrow> jsstring \<Rightarrow> request" where
  "pollJobStatus_request env jobId = GET (API_BASE env @ js ''/research/'' @ jobId)"

datatype fetch_result = Rejected | Json_null | Json_object job_snapshot

text \<open>
  \<^verbatim>\<open>job.status === 'completed' || job.status === 'failed' || job.status === 'cancelled'\<close>
\<close>

definition is_terminal_status :: "jsstring option \<Rightarrow> bool" where
  "is_terminal_status s =
     (s = Some (js ''completed'') \<or> s = Some (js ''failed'') \<or> s = Some (js ''cancelled''))"

text \<open>
  The continuation of \<open>pollJobStatus\<close> after the awaits: the new state and the timer it
  sets, if any. On \<open>null\<close> the state setter has already run when \<open>job.status\<close> raises the
  TypeError that the \<open>catch\<close> block handles.
\<close>

fun pollJobStatus :: "app_state \<Rightarrow> jsstring \<Rightarrow> fetch_result \<Rightarrow> app_state \<times> timer option" where
  "pollJobStatus st jobId Rejected =
     (st\<lparr>error := Some (js ''Failed to fetch job status''), isLoading := False\<rparr>, None)"
| "pollJobStatus st jobId Json_null =
     (st\<lparr>currentJob := None, error := Some (js ''Failed to fetch job status''),
         isLoading := False\<rparr>, None)"
| "pollJobStatus st jobId (Json_object job) =
     (if is_terminal_status (status job) then
        (if status job = Some (js ''failed'')
         then st\<lparr>currentJob := Some job, isLoading := False, error := job_error job\<rparr>
         else st\<lparr>currentJob := Some job, isLoading := False\<rparr>,
         None)
      else (st\<lparr>currentJob := Some job\<rparr>, Some \<lparr>delay = 2000, timer_job = jobId\<rparr>))"

text \<open>
  A whole polling chain against the answers the backend gives to the successive polls of
  one job: every call issues its request, and the next call happens only through the
  timer of the previous one. The result is the final state and the requests issued; a
  call whose answer is not in the list stays pending.
\<close>

fun poll_chain ::
  "jsstring option \<Rightarrow> app_state \<Rightarrow> jsstring \<Rightarrow> fetch_result list \<Rightarrow> app_state \<times> request list" where
  "poll_chain env st jobId [] = (st, [pollJobStatus_request env jobId])"
| "poll_chain env st jobId (r # rs) =
     (case pollJobStatus st jobId r of
        (st', None) \<Rightarrow> (st', [pollJobStatus_request env jobId])
      | (st', Some t) \<Rightarrow>
          (case poll_chain env st' (timer_job t) rs of
             (st'', reqs) \<Rightarrow> (st'', pollJobStatus_request env jobId # reqs)))"

subsection \<open>startResearch\<close>

text \<open>
  \<^verbatim>\<open>questions.filter(q => q.trim())\<close>: holes are passed over, \<open>undefined.trim()\<close> raises a
  TypeError, and a string is kept when its trimmed form is not empty.
\<close>

datatype type_error = TypeError

fun validQuestions :: "question list \<Rightarrow> type_error + jsstring list" where
  "validQuestions [] = Inr []"
| "validQuestions (Hole # qs) = validQuestions qs"
| "validQuestions (Undef # qs) = Inl TypeError"
| "validQuestions (Str s # qs) =
     (case validQuestions qs of
        Inl e \<Rightarrow> Inl e
      | Inr vs \<Rightarrow> Inr (if truthy (trim s) then s # vs else vs))"

text \<open>
  The part of \<open>startResearch\<close> before its first \<open>await\<close>. It ends with a validation
  message, with the TypeError of the filter (which leaves the \<open>async\<close> function as a
  rejected promise, outside its \<open>try\<close>), or with the request sent.
\<close>

datatype start_result =
  Invalid app_state
| Threw type_error
| Sent app_state request

definition startResearch :: "jsstring option \<Rightarrow> app_state \<Rightarrow> start_result" where
  "startResearch env st =
     (if \<not> truthy (websiteUrl st) then
        Invalid (st\<lparr>error := Some (js ''Please enter a website URL'')\<rparr>)
      else
        (case validQuestions (questions st) of
           Inl e \<Rightarrow> Threw e
         | Inr vs \<Rightarrow>
             if length vs = 0 then
               Invalid (st\<lparr>error := Some (js ''Please enter at least one research question'')\<rparr>)
             else
               Sent (st\<lparr>error := None, isLoading := True, currentJob := None\<rparr>)
                 (POST (API_BASE env @ js ''/research'')
                    \<lparr>website_url = websiteUrl st, body_questions = vs,
                     model = selectedModel st, max_pages = maxPages st,
                     max_depth = maxDepth st\<rparr>)))"

text \<open>
  What the awaited request comes back with: a raised error with its message (\<open>fetch\<close> or
  \<open>res.json()\<close> rejected, or the body could not be destructured), a response that is not
  \<open>ok\<close>, or the \<open>job_id\<close> of an \<open>ok\<close> response. The continuation either reports the
  message or calls \<open>pollJobStatus(job_id)\<close>.
\<close>

datatype post_result = Post_threw jsstring | Post_not_ok | Post_job jsstring

fun startResearch_response :: "app_state \<Rightarrow> post_result \<Rightarrow> app_state \<times> jsstring option" where
  "startResearch_response st (Post_threw msg) =
     (st\<lparr>error := Some msg, isLoading := False\<rparr>, None)"
| "startResearch_response st Post_not_ok =
     (st\<lparr>error := Some (js ''Failed to start research''), isLoading := False\<rparr>, None)"
| "startResearch_response st (Post_job job_id) = (st, Some job_id)"

subsection \<open>resetForm\<close>

definition resetForm :: "app_state \<Rightarrow> app_state" where
  "resetForm st = st\<lparr>currentJob := None, error := None, websiteUrl := [], questions := [Str []]\<rparr>"

subsection \<open>What is rendered\<close>

text \<open>
  \<^verbatim>\<open>!currentJob?.report\<close> selects the form; a truthy report selects the results section
  with the ReportViewer and the reset button.
\<close>

definition shows_results :: "app_state \<Rightarrow> bool" where
  "shows_results st =
     (case currentJob st of None \<Rightarrow> False | Some job \<Rightarrow> truthy_opt (report job))"

text \<open>\<^verbatim>\<open>{error && <div className="error-message">...{error}</div>}\<close>, inside the form.\<close>

definition error_message :: "app_state \<Rightarrow> jsstring option" where
  "error_message st =
     (if shows_results st then None
      else if truthy_opt (error st) then error st else None)"

text \<open>\<^verbatim>\<open>{currentJob && isLoading && <ProgressBar progress={currentJob.progress} />}\<close>\<close>

definition shows_progress :: "app_state \<Rightarrow> bool" where
  "shows_progress st = (\<not> shows_results st \<and> currentJob st \<noteq> None \<and> isLoading st)"

text \<open>
  The ReportViewer's tabs: the count \<^verbatim>\<open>job.pages_scraped?.length || 0\<close>, the pages listed as
  (\<^verbatim>\<open>page.title || page.url\<close>, link, depth), and the summaries.
\<close>

definition pages_count :: "job_snapshot \<Rightarrow> nat" where
  "pages_count job = (case pages_scraped job of None \<Rightarrow> 0 | Some ps \<Rightarrow> length ps)"

definition page_label :: "scraped_page \<Rightarrow> jsstring" where
  "page_label p =
     (case title p of None \<Rightarrow> url p | Some t \<Rightarrow> if truthy t then t else url p)"

definition pages_tab :: "job_snapshot \<Rightarrow> (jsstring \<times> jsstring \<times> int) list" where
  "pages_tab job =
     (case pages_scraped job of
        None \<Rightarrow> []
      | Some ps \<Rightarrow> map (\<lambda>p. (page_label p, url p, depth p)) ps)"

definition summaries_tab :: "job_snapshot \<Rightarrow> page_summary list" where
  "summaries_tab job = (case summaries job of None \<Rightarrow> [] | Some ss \<Rightarrow> ss)"

text \<open>
  The ReportViewer keeps the active tab in a state variable of its own, \<open>activeTab\<close>,
  initially the report, and renders the content of that tab alone: the report text, the
  page list or the summary list.
\<close>

datatype tab = Tab_report | Tab_pages | Tab_summaries

datatype tab_content =
  Report_text jsstring
| Page_list "(jsstring \<times> jsstring \<times> int) list"
| Summary_list "page_summary list"

definition ReportViewer :: "tab \<Rightarrow> jsstring \<Rightarrow> job_snapshot \<Rightarrow> tab_content" where
  "ReportViewer activeTab rep job =
     (case activeTab of
        Tab_report \<Rightarrow> Report_text rep
      | Tab_pages \<Rightarrow> Page_list (pages_tab job)
      | Tab_summaries \<Rightarrow> Summary_list (summaries_tab job))"

text \<open>
  \<^verbatim>\<open><ReportViewer report={currentJob.report} job={currentJob} />\<close> is mounted in the results
  section, which takes the place of the form when \<^verbatim>\<open>currentJob?.report\<close> is truthy; \<open>None\<close>
  while the form is shown.
\<close>

definition results_section :: "tab \<Rightarrow> app_state \<Rightarrow> tab_content option" where
  "results_section activeTab st =
     (case currentJob st of
        None \<Rightarrow> None
      | Some job \<Rightarrow>
          (case report job of
             None \<Rightarrow> None
           | Some rep \<Rightarrow> if truthy rep then Some (ReportViewer activeTab rep job) else None))"


subsection \<open>Events\<close>

text \<open>
  The application moves by events: the handlers of the rendered controls, and the
  settling of the promises it awaits. The value of a range control is the decimal numeral
  of the integer it holds; a slider's \<open>onChange\<close> passes \<^verbatim>\<open>parseInt(e.target.value)\<close>, that
  integer, to the state setter.
\<close>

datatype event =
  Change_url jsstring
| Click_add_question
| Change_question nat jsstring
| Click_remove_question nat
| Click_model jsstring
| Click_settings_toggle
| Change_max_pages int
| Change_max_depth int
| Click_start
| Click_reset
| Models_fetched "(jsstring \<times> model_info) list"
| Post_settled post_result
| Poll_settled jsstring fetch_result

fun handle :: "jsstring option \<Rightarrow> app_state \<Rightarrow> event \<Rightarrow> app_state" where
  "handle env st (Change_url v) = st\<lparr>websiteUrl := v\<rparr>"
| "handle env st Click_add_question = st\<lparr>questions := addQuestion (questions st)\<rparr>"
| "handle env st (Change_question i v) = st\<lparr>questions := updateQuestion i v (questions st)\<rparr>"
| "handle env st (Click_remove_question i) = st\<lparr>questions := removeQuestion i (questions st)\<rparr>"
| "handle env st (Click_model k) = st\<lparr>selectedModel := k\<rparr>"
| "handle env st Click_settings_toggle = st\<lparr>showSettings := \<not> showSettings st\<rparr>"
| "handle env st (Change_max_pages v) = st\<lparr>maxPages := v\<rparr>"
| "handle env st (Change_max_depth v) = st\<lparr>maxDepth := v\<rparr>"
| "handle env st Click_start =
     (case startResearch env st of Invalid st' \<Rightarrow> st' | Threw e \<Rightarrow> st | Sent st' r \<Rightarrow> st')"
| "handle env st Click_reset = resetForm st"
| "handle env st (Models_fetched ms) = st\<lparr>models := ms\<rparr>"
| "handle env st (Post_settled r) = fst (startResearch_response st r)"
| "handle env st (Poll_settled jobId r) = fst (pollJobStatus st jobId r)"

text \<open>
  An event of a control can happen only while the control is rendered and not disabled:
  the form is replaced by the results section once the job has a report; the URL field and
  the start button are disabled while loading; a question row exists for the entries that
  are not holes; a model card exists for every key of \<open>models\<close>; the sliders exist while the
  advanced settings are shown, and a range control holds an integer between its \<open>min\<close> and
  \<open>max\<close> attributes (10 and 100 for the pages, 1 and 5 for the depth).
\<close>

fun enabled :: "app_state \<Rightarrow> event \<Rightarrow> bool" where
  "enabled st (Change_url v) = (\<not> shows_results st \<and> \<not> isLoading st)"
| "enabled st Click_add_question = (\<not> shows_results st)"
| "enabled st (Change_question i v) =
     (\<not> shows_results st \<and> i \<in> set (map fst (question_rows (questions st))))"
| "enabled st (Click_remove_question i) =
     (\<not> shows_results st \<and> i \<in> set (map fst (question_rows (questions st)))
      \<and> \<not> remove_disabled (questions st))"
| "enabled st (Click_model k) = (\<not> shows_results st \<and> k \<in> set (map fst (models st)))"
| "enabled st Click_settings_toggle = (\<not> shows_results st)"
| "enabled st (Change_max_pages v) =
     (\<not> shows_results st \<and> showSettings st \<and> 10 \<le> v \<and> v \<le> 100)"
| "enabled st (Change_max_depth v) =
     (\<not> shows_results st \<and> showSettings st \<and> 1 \<le> v \<and> v \<le> 5)"
| "enabled st Click_start = (\<not> shows_results st \<and> \<not> isLoading st)"
| "enabled st Click_reset = shows_results st"
| "enabled st (Models_fetched ms) = True"
| "enabled st (Post_settled r) = True"
| "enabled st (Poll_settled jobId r) = True"

text \<open>Running a sequence of events from a state; \<open>None\<close> when one of them cannot happen.\<close>

fun run :: "jsstring option \<Rightarrow> app_state \<Rightarrow> event list \<Rightarrow> app_state option" where
  "run env st [] = Some st"
| "run env st (ev # evs) = (if enabled st ev then run env (handle env st ev) evs else None)"

text \<open>
  The question lists that the three operations of \<open>QuestionInput\<close> and \<open>resetForm\<close> can
  produce from the initial one, whatever indices and values they are called with.
\<close>

datatype question_op = Add | Update nat jsstring | Remove nat | Reset

fun apply_question_op :: "question list \<Rightarrow> question_op \<Rightarrow> question list" where
  "apply_question_op qs Add = addQuestion qs"
| "apply_question_op qs (Update i v) = updateQuestion i v qs"
| "apply_question_op qs (Remove i) = removeQuestion i qs"
| "apply_question_op qs Reset = [Str []]"


section \<open>The backend's contract\<close>

text \<open>
  The backend (the boundary \<open>create_job\<close>, the job orchestrator and the crawler) is not among
  the sources of the front end; this section follows the specification's words.
\<close>

subsection \<open>create_job\<close>

text \<open>
  Modelled from the spec: the limits that \<open>create_job\<close> accepts, \<open>max_pages\<close> an integer in
  [1,100] and \<open>max_depth\<close> an integer in [0,5]; \<open>create_job\<close> itself is missing from the sources.
\<close>

definition create_job_accepts_limits :: "int \<Rightarrow> int \<Rightarrow> bool" where
  "create_job_accepts_limits pages depth_limit =
     (1 \<le> pages \<and> pages \<le> 100 \<and> 0 \<le> depth_limit \<and> depth_limit \<le> 5)"

subsection \<open>Job states\<close>

text \<open>
  Modelled from the spec: the state machine of the job orchestrator, which is missing from
  the sources. The states run \<open>pending\<close>, \<open>crawling\<close>, \<open>summarizing\<close>, \<open>categorizing\<close>,
  \<open>reporting\<close>, \<open>completed\<close> in pipeline order; \<open>failed\<close> and \<open>cancelled\<close> are reachable from
  every state that is not terminal; \<open>completed\<close>, \<open>failed\<close> and \<open>cancelled\<close> are terminal.
\<close>

datatype job_state =
  Pending | Crawling | Summarizing | Categorizing | Reporting | Completed | Failed | Cancelled

fun state_name :: "job_state \<Rightarrow> jsstring" where
  "state_name Pending = js ''pending''"
| "state_name Crawling = js ''crawling''"
| "state_name Summarizing = js ''summarizing''"
| "state_name Categorizing = js ''categorizing''"
| "state_name Reporting = js ''reporting''"
| "state_name Completed = js ''completed''"
| "state_name Failed = js ''failed''"
| "state_name Cancelled = js ''cancelled''"

fun terminal :: "job_state \<Rightarrow> bool" where
  "terminal Completed = True"
| "terminal Failed = True"
| "terminal Cancelled = True"
| "terminal s = False"

fun next_stage :: "job_state \<Rightarrow> job_state option" where
  "next_stage Pending = Some Crawling"
| "next_stage Crawling = Some Summarizing"
| "next_stage Summarizing = Some Categorizing"
| "next_stage Categorizing = Some Reporting"
| "next_stage Reporting = Some Completed"
| "next_stage s = None"

text \<open>
  Modelled from the spec: the states a job can move to in one transition, which are the
  next stage of the pipeline, if there is one, and \<open>failed\<close> and \<open>cancelled\<close> from a state
  that is not terminal.
\<close>

definition transitions :: "job_state \<Rightarrow> job_state list" where
  "transitions s =
     (case next_stage s of None \<Rightarrow> [] | Some s' \<Rightarrow> [s']) @
     (if terminal s then [] else [Failed, Cancelled])"

text \<open>
  Modelled from the spec: the states a job is observed in over its lifetime, oldest first;
  from one observation to the next the job has kept its state or made transitions.
\<close>

fun moves :: "job_state \<Rightarrow> job_state \<Rightarrow> bool" where
  "moves s s' = (s' = s \<or> s' \<in> set (transitions s))"

fun job_history :: "job_state list \<Rightarrow> bool" where
  "job_history [] = True"
| "job_history [s] = True"
| "job_history (s # s' # rest) = (moves s s' \<and> job_history (s' # rest))"

subsection \<open>Crawler\<close>

text \<open>
  Modelled from the spec: the data of the crawler, which is missing from the sources. A
  CrawlTarget is a URL with its depth; a CrawledPage carries the URL, the title, the
  extracted text, the depth and the outbound links.
\<close>

record crawl_target =
  target_url :: string
  target_depth :: nat

record crawled_page =
  page_url :: string
  page_title :: string
  extracted_text :: string
  page_depth :: nat
  outbound_links :: "string list"

text \<open>
  Modelled from the spec: the Fetcher followed by the Link Extractor, as one parameter of
  the crawler. For a URL it answers \<open>None\<close> on a fetch failure, and otherwise the title, the
  text and the ordered same-origin links of the page.
\<close>

type_synonym site = "string \<Rightarrow> (string \<times> string \<times> string list) option"

record crawl_state =
  frontier :: "crawl_target list"
  visited :: "string list"
  pages :: "crawled_page list"
  failures :: "string list"

text \<open>
  Modelled from the spec: the links of a fetched page that are enqueued, each at depth + 1,
  only if not visited and depth + 1 within the limit, in their order of appearance.
\<close>

definition discovered :: "nat \<Rightarrow> string list \<Rightarrow> nat \<Rightarrow> string list \<Rightarrow> crawl_target list" where
  "discovered max_depth_limit seen d links =
     map (\<lambda>l. \<lparr>target_url = l, target_depth = d + 1\<rparr>)
       (filter (\<lambda>l. l \<notin> set seen \<and> d + 1 \<le> max_depth_limit) links)"

text \<open>
  Modelled from the spec: the crawler's traversal. It ends when the frontier is empty or
  the page budget is reached. Otherwise it dequeues a target; a target deeper than the
  limit or already visited is skipped; else the URL is marked visited and fetched; a
  failure is recorded and the target skipped; on success the page is appended to the
  result and its new links are enqueued.
\<close>

function crawl_loop :: "site \<Rightarrow> nat \<Rightarrow> nat \<Rightarrow> crawl_state \<Rightarrow> crawl_state" where
  "crawl_loop fetch page_budget depth_limit s =
     (case frontier s of
        [] \<Rightarrow> s
      | t # rest \<Rightarrow>
          if page_budget \<le> length (pages s) then s
          else if depth_limit < target_depth t \<or> target_url t \<in> set (visited s) then
            crawl_loop fetch page_budget depth_limit (s\<lparr>frontier := rest\<rparr>)
          else
            (case fetch (target_url t) of
               None \<Rightarrow>
                 crawl_loop fetch page_budget depth_limit
                   (s\<lparr>frontier := rest, visited := target_url t # visited s,
                      failures := failures s @ [target_url t]\<rparr>)
             | Some (ttl, body, links) \<Rightarrow>
                 crawl_loop fetch page_budget depth_limit
                   (s\<lparr>frontier :=
                        rest @ discovered depth_limit (target_url t # visited s)
                                 (target_depth t) links,
                      visited := target_url t # visited s,
                      pages := pages s @
                        [\<lparr>page_url = target_url t, page_title = ttl, extracted_text = body,
                          page_depth = target_depth t, outbound_links = links\<rparr>]\<rparr>)))"
  by pat_completeness auto
termination
  by (relation "measures [\<lambda>(fetch, page_budget, depth_limit, s). page_budget - length (pages s),
                           \<lambda>(fetch, page_budget, depth_limit, s). length (frontier s)]")
     auto

declare crawl_loop.simps [simp del]

text \<open>
  Modelled from the spec: the crawl of a seed URL with its two budgets, from the frontier
  seeded with the seed at depth 0, and the ordered sequence of pages it returns.
\<close>

definition crawl :: "site \<Rightarrow> string \<Rightarrow> nat \<Rightarrow> nat \<Rightarrow> crawled_page list" where
  "crawl fetch seed page_budget depth_limit =
     pages (crawl_loop fetch page_budget depth_limit
       \<lparr>frontier = [\<lparr>target_url = seed, target_depth = 0\<rparr>], visited = [], pages = [],
        failures = []\<rparr>)"


section \<open>Properties of the front end\<close>

subsection \<open>Trimming and the question filter\<close>

lemma all_dropWhile: "(\<forall>x \<in> set (dropWhile P s). P x) \<longleftrightarrow> (\<forall>x \<in> set s. P x)"
  by (induction s) auto

lemma trim_empty_iff: "trim s = [] \<longleftrightarrow> (\<forall>c \<in> set s. is_white_space c)"
  by (simp add: trim_def dropWhile_eq_Nil_conv all_dropWhile)

lemma type_error_unique: "e = TypeError"
  by (cases e) simp

lemma validQuestions_blank:
  "\<forall>q \<in> set qs. \<exists>s. q = Str s \<and> (\<forall>c \<in> set s. is_white_space c) \<Longrightarrow> validQuestions qs = Inr []"
  by (induction qs rule: validQuestions.induct) (auto simp: truthy_def trim_empty_iff)

lemma validQuestions_threw: "validQuestions qs = Inl e \<longleftrightarrow> Undef \<in> set qs"
  by (induction qs rule: validQuestions.induct)
     (auto split: sum.splits simp: type_error_unique [of e])

lemma validQuestions_set:
  "validQuestions qs = Inr vs \<Longrightarrow> set vs = {s. Str s \<in> set qs \<and> trim s \<noteq> []}"
proof (induction qs arbitrary: vs rule: validQuestions.induct)
  case 1
  then show ?case by simp
next
  case (2 qs)
  then show ?case by simp
next
  case (3 qs)
  then show ?case by simp
next
  case (4 s qs)
  from "4.prems" obtain ws where ws: "validQuestions qs = Inr ws"
    and vs: "vs = (if truthy (trim s) then s # ws else ws)"
    by (auto split: sum.splits)
  have "set ws = {s. Str s \<in> set qs \<and> trim s \<noteq> []}"
    using "4.IH" ws by simp
  with vs show ?case
    by (auto simp: truthy_def)
qed

subsection \<open>Starting research\<close>

text \<open>
  C1: an attempt to start research with an empty URL field, or with only empty or
  whitespace-only question strings, ends with a validation message and sends nothing. A
  request is sent exactly when the URL is not empty, the filter does not raise, and some
  entered question has a character that is not whitespace; the request is the
  \<^verbatim>\<open>POST /research\<close> whose questions are the entered strings that survive the filter, so its
  question list is never empty.
\<close>

theorem startResearch_sends_only_valid:
  "(websiteUrl st = [] \<longrightarrow>
      startResearch env st = Invalid (st\<lparr>error := Some (js ''Please enter a website URL'')\<rparr>)) \<and>
   (websiteUrl st \<noteq> [] \<and> (\<forall>q \<in> set (questions st). \<exists>s. q = Str s \<and> (\<forall>c \<in> set s. is_white_space c)) \<longrightarrow>
      startResearch env st =
        Invalid (st\<lparr>error := Some (js ''Please enter at least one research question'')\<rparr>)) \<and>
   ((\<exists>st' r. startResearch env st = Sent st' r) \<longleftrightarrow>
      websiteUrl st \<noteq> [] \<and> Undef \<notin> set (questions st) \<and>
      (\<exists>s. Str s \<in> set (questions st) \<and> \<not> (\<forall>c \<in> set s. is_white_space c))) \<and>
   (\<forall>st' r. startResearch env st = Sent st' r \<longrightarrow>
      (\<exists>b. r = POST (API_BASE env @ js ''/research'') b \<and> website_url b = websiteUrl st \<and>
           body_questions b \<noteq> [] \<and>
           set (body_questions b) = {s. Str s \<in> set (questions st) \<and> trim s \<noteq> []}))"
proof (intro conjI impI allI)
  assume "websiteUrl st = []"
  then show "startResearch env st = Invalid (st\<lparr>error := Some (js ''Please enter a website URL'')\<rparr>)"
    by (simp add: startResearch_def truthy_def)
next
  assume "websiteUrl st \<noteq> [] \<and> (\<forall>q \<in> set (questions st). \<exists>s. q = Str s \<and> (\<forall>c \<in> set s. is_white_space c))"
  then show "startResearch env st =
        Invalid (st\<lparr>error := Some (js ''Please enter at least one research question'')\<rparr>)"
    by (simp add: startResearch_def truthy_def validQuestions_blank)
next
  show "(\<exists>st' r. startResearch env st = Sent st' r) \<longleftrightarrow>
      websiteUrl st \<noteq> [] \<and> Undef \<notin> set (questions st) \<and>
      (\<exists>s. Str s \<in> set (questions st) \<and> \<not> (\<forall>c \<in> set s. is_white_space c))"
  proof (cases "validQuestions (questions st)")
    case (Inl e)
    then have "Undef \<in> set (questions st)"
      using validQuestions_threw by blast
    with Inl show ?thesis
      by (simp add: startResearch_def)
  next
    case (Inr vs)
    then have no: "Undef \<notin> set (questions st)"
      using validQuestions_threw [of "questions st"] by auto
    have "vs \<noteq> [] \<longleftrightarrow> (\<exists>s. Str s \<in> set (questions st) \<and> trim s \<noteq> [])"
      using validQuestions_set [OF Inr] by (cases vs) auto
    with Inr no show ?thesis
      by (auto simp: startResearch_def truthy_def trim_empty_iff)
  qed
next
  fix st' r
  assume sent: "startResearch env st = Sent st' r"
  then obtain vs where vs: "validQuestions (questions st) = Inr vs" "vs \<noteq> []"
    and r: "r = POST (API_BASE env @ js ''/research'')
                    \<lparr>website_url = websiteUrl st, body_questions = vs,
                     model = selectedModel st, max_pages = maxPages st,
                     max_depth = maxDepth st\<rparr>"
    by (auto simp: startResearch_def split: if_splits sum.splits)
  show "\<exists>b. r = POST (API_BASE env @ js ''/research'') b \<and> website_url b = websiteUrl st \<and>
           body_questions b \<noteq> [] \<and>
           set (body_questions b) = {s. Str s \<in> set (questions st) \<and> trim s \<noteq> []}"
    using vs r validQuestions_set [OF vs(1)] by simp
qed

text \<open>
  The theorem at the initial state, whose URL field is empty, and at two states with a
  URL: one whose questions are blank, one with a question.
\<close>

theorem startResearch_sends_only_valid_witness:
  "startResearch None initial_state =
     Invalid (initial_state\<lparr>error := Some (js ''Please enter a website URL'')\<rparr>) \<and>
   startResearch None
     (initial_state\<lparr>websiteUrl := js ''https://example.com'',
                     questions := [Str (js ''  ''), Str []]\<rparr>) =
   Invalid (initial_state\<lparr>websiteUrl := js ''https://example.com'',
                     questions := [Str (js ''  ''), Str []],
                     error := Some (js ''Please enter at least one research question'')\<rparr>) \<and>
   (\<exists>st' b. startResearch None
     (initial_state\<lparr>websiteUrl := js ''https://example.com'',
                     questions := [Str (js ''  ''), Str (js ''Who leads it?'')]\<rparr>) =
       Sent st' (POST (js ''http://localhost:8001/research'') b) \<and>
     body_questions b \<noteq> [] \<and> set (body_questions b) = {js ''Who leads it?''})"
proof -
  let ?blank = "initial_state\<lparr>websiteUrl := js ''https://example.com'',
                     questions := [Str (js ''  ''), Str []]\<rparr>"
  let ?asked = "initial_state\<lparr>websiteUrl := js ''https://example.com'',
                     questions := [Str (js ''  ''), Str (js ''Who leads it?'')]\<rparr>"
  have no_url: "websiteUrl initial_state = []"
    by (simp add: initial_state_def)
  have url: "websiteUrl ?blank \<noteq> []" "websiteUrl ?asked \<noteq> []"
    by (simp_all add: js_def)
  have blank: "\<forall>q \<in> set (questions ?blank). \<exists>s. q = Str s \<and> (\<forall>c \<in> set s. is_white_space c)"
    by (simp add: js_def is_white_space_def)
  have "Str (js ''Who leads it?'') \<in> set (questions ?asked) \<and>
        \<not> (\<forall>c \<in> set (js ''Who leads it?''). is_white_space c)"
    by (simp add: js_def is_white_space_def)
  then have asked: "Undef \<notin> set (questions ?asked)"
    "\<exists>s. Str s \<in> set (questions ?asked) \<and> \<not> (\<forall>c \<in> set s. is_white_space c)"
    by (simp, blast)
  have survivors: "{s. Str s \<in> set (questions ?asked) \<and> trim s \<noteq> []} = {js ''Who leads it?''}"
    by (auto simp: trim_def is_white_space_def js_def)
  from startResearch_sends_only_valid [of initial_state None] no_url
  have "startResearch None initial_state =
        Invalid (initial_state\<lparr>error := Some (js ''Please enter a website URL'')\<rparr>)"
    by blast
  moreover from startResearch_sends_only_valid [of ?blank None] url(1) blank
  have "startResearch None ?blank =
        Invalid (?blank\<lparr>error := Some (js ''Please enter at least one research question'')\<rparr>)"
    by blast
  moreover have "\<exists>st' b. startResearch None ?asked =
       Sent st' (POST (js ''http://localhost:8001/research'') b) \<and>
     body_questions b \<noteq> [] \<and> set (body_questions b) = {js ''Who leads it?''}"
  proof -
    from startResearch_sends_only_valid [of ?asked None] url(2) asked
    obtain st' r where sent: "startResearch None ?asked = Sent st' r"
      by blast
    with startResearch_sends_only_valid [of ?asked None]
    obtain b where "r = POST (API_BASE None @ js ''/research'') b" "body_questions b \<noteq> []"
      "set (body_questions b) = {s. Str s \<in> set (questions ?asked) \<and> trim s \<noteq> []}"
      by blast
    moreover have "API_BASE None @ js ''/research'' = js ''http://localhost:8001/research''"
      by (simp add: API_BASE_def js_def)
    ultimately show ?thesis
      using sent survivors by auto
  qed
  ultimately show ?thesis by simp
qed

subsection \<open>Polling\<close>

text \<open>
  The timer that \<open>pollJobStatus\<close> sets depends on the answer alone, and a polling chain
  goes on exactly through that timer.
\<close>

lemma is_terminal_status_iff:
  "is_terminal_status s \<longleftrightarrow>
     s = Some (js ''completed'') \<or> s = Some (js ''failed'') \<or> s = Some (js ''cancelled'')"
  by (simp add: is_terminal_status_def)

lemma pollJobStatus_timer:
  "snd (pollJobStatus st jobId r) =
     (case r of
        Json_object job \<Rightarrow>
          if is_terminal_status (status job) then None
          else Some \<lparr>delay = 2000, timer_job = jobId\<rparr>
      | _ \<Rightarrow> None)"
  by (cases r) simp_all

lemma poll_chain_stop:
  "snd (pollJobStatus st jobId r) = None \<Longrightarrow>
   poll_chain env st jobId (r # later) =
     (fst (pollJobStatus st jobId r), [pollJobStatus_request env jobId])"
  by (cases "pollJobStatus st jobId r") simp

lemma poll_chain_continue:
  "snd (pollJobStatus st jobId r) = Some t \<Longrightarrow>
   poll_chain env st jobId (r # later) =
     (fst (poll_chain env (fst (pollJobStatus st jobId r)) (timer_job t) later),
      pollJobStatus_request env jobId #
        snd (poll_chain env (fst (pollJobStatus st jobId r)) (timer_job t) later))"
  by (cases "pollJobStatus st jobId r") (simp split: prod.splits)

text \<open>
  C4: for every job snapshot that \<open>pollJobStatus\<close> receives, the timer for another poll of
  the same job, 2000 ms later, is set if and only if the status is none of \<open>completed\<close>,
  \<open>failed\<close> and \<open>cancelled\<close>. On those three the loading flag is cleared and the chain issues
  no request beyond the one just answered; on every other status the chain goes on with a
  request for the same job.
\<close>

theorem pollJobStatus_reschedules:
  "(snd (pollJobStatus st jobId (Json_object job)) = Some \<lparr>delay = 2000, timer_job = jobId\<rparr>) =
     (status job \<noteq> Some (js ''completed'') \<and> status job \<noteq> Some (js ''failed'') \<and>
      status job \<noteq> Some (js ''cancelled'')) \<and>
   (snd (pollJobStatus st jobId (Json_object job)) = None) =
     (status job = Some (js ''completed'') \<or> status job = Some (js ''failed'') \<or>
      status job = Some (js ''cancelled'')) \<and>
   (status job = Some (js ''completed'') \<or> status job = Some (js ''failed'') \<or>
    status job = Some (js ''cancelled'') \<longrightarrow>
      \<not> isLoading (fst (pollJobStatus st jobId (Json_object job))) \<and>
      snd (poll_chain env st jobId (Json_object job # later)) = [pollJobStatus_request env jobId]) \<and>
   (status job \<noteq> Some (js ''completed'') \<and> status job \<noteq> Some (js ''failed'') \<and>
    status job \<noteq> Some (js ''cancelled'') \<longrightarrow>
      snd (poll_chain env st jobId (Json_object job # later)) =
        pollJobStatus_request env jobId #
          snd (poll_chain env (st\<lparr>currentJob := Some job\<rparr>) jobId later))"
proof -
  have terminal: "is_terminal_status (status job) \<longleftrightarrow>
      status job = Some (js ''completed'') \<or> status job = Some (js ''failed'') \<or>
      status job = Some (js ''cancelled'')"
    by (rule is_terminal_status_iff)
  show ?thesis
  proof (cases "is_terminal_status (status job)")
    case True
    then have t: "snd (pollJobStatus st jobId (Json_object job)) = None"
      by simp
    have "\<not> isLoading (fst (pollJobStatus st jobId (Json_object job)))"
      using True by simp
    moreover have "snd (poll_chain env st jobId (Json_object job # later)) =
        [pollJobStatus_request env jobId]"
      using poll_chain_stop [OF t] by simp
    ultimately show ?thesis
      using True t terminal by auto
  next
    case False
    then have t: "snd (pollJobStatus st jobId (Json_object job)) =
        Some \<lparr>delay = 2000, timer_job = jobId\<rparr>"
      by simp
    have "snd (poll_chain env st jobId (Json_object job # later)) =
        pollJobStatus_request env jobId #
          snd (poll_chain env (st\<lparr>currentJob := Some job\<rparr>) jobId later)"
      using poll_chain_continue [OF t] False by simp
    then show ?thesis
      using False t terminal by auto
  qed
qed

text \<open>The theorem at a snapshot that is still summarizing and at a cancelled one.\<close>

theorem pollJobStatus_reschedules_witness:
  "snd (pollJobStatus initial_state (js ''j1'')
     (Json_object \<lparr>status = Some (js ''summarizing''), progress = None, pages_scraped = None,
                   summaries = None, report = None, job_error = None\<rparr>)) =
     Some \<lparr>delay = 2000, timer_job = js ''j1''\<rparr> \<and>
   snd (poll_chain None initial_state (js ''j1'')
     [Json_object \<lparr>status = Some (js ''summarizing''), progress = None, pages_scraped = None,
                   summaries = None, report = None, job_error = None\<rparr>]) =
     [GET (js ''http://localhost:8001/research/j1''), GET (js ''http://localhost:8001/research/j1'')] \<and>
   snd (pollJobStatus initial_state (js ''j1'')
     (Json_object \<lparr>status = Some (js ''cancelled''), progress = None, pages_scraped = None,
                   summaries = None, report = None, job_error = None\<rparr>)) = None \<and>
   \<not> isLoading (fst (pollJobStatus (initial_state\<lparr>isLoading := True\<rparr>) (js ''j1'')
     (Json_object \<lparr>status = Some (js ''cancelled''), progress = None, pages_scraped = None,
                   summaries = None, report = None, job_error = None\<rparr>)))"
proof -
  let ?running = "\<lparr>status = Some (js ''summarizing''), progress = None, pages_scraped = None,
                   summaries = None, report = None, job_error = None\<rparr>"
  let ?stopped = "\<lparr>status = Some (js ''cancelled''), progress = None, pages_scraped = None,
                   summaries = None, report = None, job_error = None\<rparr>"
  have running: "status ?running \<noteq> Some (js ''completed'') \<and>
      status ?running \<noteq> Some (js ''failed'') \<and> status ?running \<noteq> Some (js ''cancelled'')"
    by (simp add: js_def)
  have stopped: "status ?stopped = Some (js ''cancelled'')"
    by simp
  from pollJobStatus_reschedules [of initial_state "js ''j1''" ?running None "[]"] running
  have "snd (pollJobStatus initial_state (js ''j1'') (Json_object ?running)) =
      Some \<lparr>delay = 2000, timer_job = js ''j1''\<rparr>"
    and "snd (poll_chain None initial_state (js ''j1'') [Json_object ?running]) =
      pollJobStatus_request None (js ''j1'') #
        snd (poll_chain None (initial_state\<lparr>currentJob := Some ?running\<rparr>) (js ''j1'') [])"
    by blast+
  moreover have "pollJobStatus_request None (js ''j1'') = GET (js ''http://localhost:8001/research/j1'')"
    by (simp add: pollJobStatus_request_def API_BASE_def js_def)
  moreover from pollJobStatus_reschedules [of initial_state "js ''j1''" ?stopped None "[]"] stopped
  have "snd (pollJobStatus initial_state (js ''j1'') (Json_object ?stopped)) = None"
    by blast
  moreover from pollJobStatus_reschedules
      [of "initial_state\<lparr>isLoading := True\<rparr>" "js ''j1''" ?stopped None "[]"] stopped
  have "\<not> isLoading (fst (pollJobStatus (initial_state\<lparr>isLoading := True\<rparr>) (js ''j1'')
      (Json_object ?stopped)))"
    by blast
  ultimately show ?thesis by simp
qed

subsection \<open>A failed job\<close>

text \<open>
  The ReportViewer's page tab has one row for every scraped page of the job it is given,
  with the page's link and depth.
\<close>

lemma pages_tab_lists_every_page:
  "length (pages_tab job) = pages_count job \<and>
   map (\<lambda>row. (fst (snd row), snd (snd row))) (pages_tab job) =
     (case pages_scraped job of None \<Rightarrow> [] | Some ps \<Rightarrow> map (\<lambda>p. (url p, depth p)) ps)"
  by (simp add: pages_tab_def pages_count_def comp_def split: option.splits)

text \<open>The ReportViewer is mounted exactly when the results section is shown.\<close>

lemma results_section_shown:
  "(results_section activeTab st \<noteq> None) = shows_results st"
  by (simp add: results_section_def shows_results_def truthy_opt_def
      split: option.splits)

text \<open>
  A failed snapshot that carries a report puts the results section in the place of the
  form, and the error message is not rendered; a failed snapshot without a report leaves
  the form in place, and neither the page list nor the summary list is rendered.
\<close>

theorem failed_job_display_counterexample:
  "job_error \<lparr>status = Some (js ''failed''), progress = None,
         pages_scraped = Some [\<lparr>url = js ''https://example.com'', title = None, depth = 0\<rparr>],
         summaries = Some [], report = Some (js ''# Draft''),
         job_error = Some (js ''Reporter failed'')\<rparr> = Some (js ''Reporter failed'') \<and>
   error_message (fst (pollJobStatus (initial_state\<lparr>isLoading := True\<rparr>) (js ''j1'')
     (Json_object
        \<lparr>status = Some (js ''failed''), progress = None,
         pages_scraped = Some [\<lparr>url = js ''https://example.com'', title = None, depth = 0\<rparr>],
         summaries = Some [], report = Some (js ''# Draft''),
         job_error = Some (js ''Reporter failed'')\<rparr>))) = None \<and>
   results_section Tab_pages (fst (pollJobStatus (initial_state\<lparr>isLoading := True\<rparr>) (js ''j1'')
     (Json_object
        \<lparr>status = Some (js ''failed''), progress = None,
         pages_scraped = Some [\<lparr>url = js ''https://example.com'', title = None, depth = 0\<rparr>],
         summaries = Some [], report = None,
         job_error = Some (js ''Reporter failed'')\<rparr>))) = None \<and>
   results_section Tab_summaries (fst (pollJobStatus (initial_state\<lparr>isLoading := True\<rparr>) (js ''j1'')
     (Json_object
        \<lparr>status = Some (js ''failed''), progress = None,
         pages_scraped = Some [\<lparr>url = js ''https://example.com'', title = None, depth = 0\<rparr>],
         summaries = Some [], report = None,
         job_error = Some (js ''Reporter failed'')\<rparr>))) = None"
  by (simp add: is_terminal_status_def error_message_def shows_results_def truthy_opt_def
      truthy_def results_section_def js_def)

text \<open>
  C7, for what is rendered: when a polled snapshot has the status \<open>failed\<close>, the error
  state of the application becomes exactly the snapshot's \<open>error\<close> field, and the snapshot is
  kept whole as the current job. The message is rendered exactly when the snapshot has no
  report and the field is a non-empty string. The pages and the summaries of the snapshot
  are rendered, each in its tab of the ReportViewer, exactly when the snapshot has a
  report; without one no tab is rendered.
\<close>

theorem failed_job_error_and_results:
  "status job = Some (js ''failed'') \<longrightarrow>
     error (fst (pollJobStatus st jobId (Json_object job))) = job_error job \<and>
     currentJob (fst (pollJobStatus st jobId (Json_object job))) = Some job \<and>
     error_message (fst (pollJobStatus st jobId (Json_object job))) =
       (if truthy_opt (report job) then None
        else if truthy_opt (job_error job) then job_error job else None) \<and>
     (\<forall>rep. report job = Some rep \<and> truthy rep \<longrightarrow>
        results_section Tab_report (fst (pollJobStatus st jobId (Json_object job))) =
          Some (Report_text rep) \<and>
        results_section Tab_pages (fst (pollJobStatus st jobId (Json_object job))) =
          Some (Page_list
            (case pages_scraped job of
               None \<Rightarrow> []
             | Some ps \<Rightarrow>
                 map (\<lambda>p. (case title p of None \<Rightarrow> url p
                              | Some t \<Rightarrow> if t = [] then url p else t, url p, depth p)) ps)) \<and>
        results_section Tab_summaries (fst (pollJobStatus st jobId (Json_object job))) =
          Some (Summary_list (case summaries job of None \<Rightarrow> [] | Some ss \<Rightarrow> ss))) \<and>
     (\<not> truthy_opt (report job) \<longrightarrow>
        (\<forall>activeTab.
           results_section activeTab (fst (pollJobStatus st jobId (Json_object job))) = None))"
proof
  assume failed: "status job = Some (js ''failed'')"
  let ?st = "fst (pollJobStatus st jobId (Json_object job))"
  have state: "error ?st = job_error job" "currentJob ?st = Some job"
    using failed by (simp_all add: is_terminal_status_def)
  have banner: "error_message ?st =
      (if truthy_opt (report job) then None
       else if truthy_opt (job_error job) then job_error job else None)"
    using state by (simp add: error_message_def shows_results_def)
  have label: "page_label p =
      (case title p of None \<Rightarrow> url p | Some t \<Rightarrow> if t = [] then url p else t)" for p
    by (simp add: page_label_def truthy_def split: option.splits)
  have viewer: "results_section Tab_report ?st = Some (Report_text rep) \<and>
      results_section Tab_pages ?st =
        Some (Page_list
          (case pages_scraped job of
             None \<Rightarrow> []
           | Some ps \<Rightarrow>
               map (\<lambda>p. (case title p of None \<Rightarrow> url p
                            | Some t \<Rightarrow> if t = [] then url p else t, url p, depth p)) ps)) \<and>
      results_section Tab_summaries ?st =
        Some (Summary_list (case summaries job of None \<Rightarrow> [] | Some ss \<Rightarrow> ss))"
    if "report job = Some rep \<and> truthy rep" for rep
    using that state(2)
    by (simp add: results_section_def ReportViewer_def pages_tab_def summaries_tab_def label
        cong: option.case_cong)
  have form: "results_section activeTab ?st = None"
    if "\<not> truthy_opt (report job)" for activeTab
    using that state(2)
    by (auto simp: results_section_def truthy_opt_def split: option.splits)
  show "error ?st = job_error job \<and>
     currentJob ?st = Some job \<and>
     error_message ?st =
       (if truthy_opt (report job) then None
        else if truthy_opt (job_error job) then job_error job else None) \<and>
     (\<forall>rep. report job = Some rep \<and> truthy rep \<longrightarrow>
        results_section Tab_report ?st = Some (Report_text rep) \<and>
        results_section Tab_pages ?st =
          Some (Page_list
            (case pages_scraped job of
               None \<Rightarrow> []
             | Some ps \<Rightarrow>
                 map (\<lambda>p. (case title p of None \<Rightarrow> url p
                              | Some t \<Rightarrow> if t = [] then url p else t, url p, depth p)) ps)) \<and>
        results_section Tab_summaries ?st =
          Some (Summary_list (case summaries job of None \<Rightarrow> [] | Some ss \<Rightarrow> ss))) \<and>
     (\<not> truthy_opt (report job) \<longrightarrow>
        (\<forall>activeTab. results_section activeTab ?st = None))"
    using state banner viewer form by blast
qed

text \<open>
  The theorem at a failed snapshot without a report, whose message is rendered, and at
  one with a report, two pages and a summary, whose tabs are rendered.
\<close>

theorem failed_job_error_and_results_witness:
  "error_message (fst (pollJobStatus (initial_state\<lparr>isLoading := True\<rparr>) (js ''j1'')
     (Json_object
        \<lparr>status = Some (js ''failed''), progress = None,
         pages_scraped = Some [\<lparr>url = js ''https://example.com'', title = None, depth = 0\<rparr>],
         summaries = Some [], report = None,
         job_error = Some (js ''No pages could be summarized'')\<rparr>))) =
     Some (js ''No pages could be summarized'') \<and>
   results_section Tab_pages (fst (pollJobStatus (initial_state\<lparr>isLoading := True\<rparr>) (js ''j1'')
     (Json_object
        \<lparr>status = Some (js ''failed''), progress = None,
         pages_scraped = Some [\<lparr>url = js ''https://example.com'', title = None, depth = 0\<rparr>],
         summaries = Some [], report = None,
         job_error = Some (js ''No pages could be summarized'')\<rparr>))) = None \<and>
   error_message (fst (pollJobStatus (initial_state\<lparr>isLoading := True\<rparr>) (js ''j1'')
     (Json_object
        \<lparr>status = Some (js ''failed''), progress = None,
         pages_scraped =
           Some [\<lparr>url = js ''https://example.com'', title = None, depth = 0\<rparr>,
                 \<lparr>url = js ''https://example.com/about'', title = Some (js ''About''),
                  depth = 1\<rparr>],
         summaries =
           Some [\<lparr>summary_url = js ''https://example.com'', summary_title = js ''Home'',
                  summary = js ''Sells tea''\<rparr>],
         report = Some (js ''# Draft''),
         job_error = Some (js ''Reporter failed'')\<rparr>))) = None \<and>
   results_section Tab_pages (fst (pollJobStatus (initial_state\<lparr>isLoading := True\<rparr>) (js ''j1'')
     (Json_object
        \<lparr>status = Some (js ''failed''), progress = None,
         pages_scraped =
           Some [\<lparr>url = js ''https://example.com'', title = None, depth = 0\<rparr>,
                 \<lparr>url = js ''https://example.com/about'', title = Some (js ''About''),
                  depth = 1\<rparr>],
         summaries =
           Some [\<lparr>summary_url = js ''https://example.com'', summary_title = js ''Home'',
                  summary = js ''Sells tea''\<rparr>],
         report = Some (js ''# Draft''),
         job_error = Some (js ''Reporter failed'')\<rparr>))) =
     Some (Page_list
       [(js ''https://example.com'', js ''https://example.com'', 0),
        (js ''About'', js ''https://example.com/about'', 1)]) \<and>
   results_section Tab_summaries (fst (pollJobStatus (initial_state\<lparr>isLoading := True\<rparr>) (js ''j1'')
     (Json_object
        \<lparr>status = Some (js ''failed''), progress = None,
         pages_scraped =
           Some [\<lparr>url = js ''https://example.com'', title = None, depth = 0\<rparr>,
                 \<lparr>url = js ''https://example.com/about'', title = Some (js ''About''),
                  depth = 1\<rparr>],
         summaries =
           Some [\<lparr>summary_url = js ''https://example.com'', summary_title = js ''Home'',
                  summary = js ''Sells tea''\<rparr>],
         report = Some (js ''# Draft''),
         job_error = Some (js ''Reporter failed'')\<rparr>))) =
     Some (Summary_list
       [\<lparr>summary_url = js ''https://example.com'', summary_title = js ''Home'',
         summary = js ''Sells tea''\<rparr>])"
proof -
  let ?st = "initial_state\<lparr>isLoading := True\<rparr>"
  let ?plain = "\<lparr>status = Some (js ''failed''), progress = None,
         pages_scraped = Some [\<lparr>url = js ''https://example.com'', title = None, depth = 0\<rparr>],
         summaries = Some [], report = None,
         job_error = Some (js ''No pages could be summarized'')\<rparr>"
  let ?drafted = "\<lparr>status = Some (js ''failed''), progress = None,
         pages_scraped =
           Some [\<lparr>url = js ''https://example.com'', title = None, depth = 0\<rparr>,
                 \<lparr>url = js ''https://example.com/about'', title = Some (js ''About''),
                  depth = 1\<rparr>],
         summaries =
           Some [\<lparr>summary_url = js ''https://example.com'', summary_title = js ''Home'',
                  summary = js ''Sells tea''\<rparr>],
         report = Some (js ''# Draft''),
         job_error = Some (js ''Reporter failed'')\<rparr>"
  have failed: "status ?plain = Some (js ''failed'')" "status ?drafted = Some (js ''failed'')"
    by simp_all
  have no_report: "\<not> truthy_opt (report ?plain)"
    by (simp add: truthy_opt_def)
  have message: "truthy_opt (job_error ?plain)"
    by (simp add: truthy_opt_def truthy_def js_def)
  have rep: "report ?drafted = Some (js ''# Draft'') \<and> truthy (js ''# Draft'')"
    "truthy_opt (report ?drafted)"
    by (simp_all add: truthy_opt_def truthy_def js_def)
  have about: "js ''About'' \<noteq> []"
    by (simp add: js_def)
  from failed_job_error_and_results [of ?plain ?st "js ''j1''"] failed(1)
  have "error_message (fst (pollJobStatus ?st (js ''j1'') (Json_object ?plain))) =
      (if truthy_opt (report ?plain) then None
       else if truthy_opt (job_error ?plain) then job_error ?plain else None)"
    and "\<not> truthy_opt (report ?plain) \<longrightarrow>
      (\<forall>activeTab.
         results_section activeTab (fst (pollJobStatus ?st (js ''j1'') (Json_object ?plain))) = None)"
    by blast+
  with no_report message
  have plain: "error_message (fst (pollJobStatus ?st (js ''j1'') (Json_object ?plain))) =
      Some (js ''No pages could be summarized'')"
    "results_section Tab_pages (fst (pollJobStatus ?st (js ''j1'') (Json_object ?plain))) = None"
    by simp_all
  from failed_job_error_and_results [of ?drafted ?st "js ''j1''"] failed(2)
  have "error_message (fst (pollJobStatus ?st (js ''j1'') (Json_object ?drafted))) =
      (if truthy_opt (report ?drafted) then None
       else if truthy_opt (job_error ?drafted) then job_error ?drafted else None)"
    and "\<forall>rep. report ?drafted = Some rep \<and> truthy rep \<longrightarrow>
        results_section Tab_pages (fst (pollJobStatus ?st (js ''j1'') (Json_object ?drafted))) =
          Some (Page_list
            (case pages_scraped ?drafted of
               None \<Rightarrow> []
             | Some ps \<Rightarrow>
                 map (\<lambda>p. (case title p of None \<Rightarrow> url p
                              | Some t \<Rightarrow> if t = [] then url p else t, url p, depth p)) ps)) \<and>
        results_section Tab_summaries (fst (pollJobStatus ?st (js ''j1'') (Json_object ?drafted))) =
          Some (Summary_list (case summaries ?drafted of None \<Rightarrow> [] | Some ss \<Rightarrow> ss))"
    by blast+
  with rep about
  have drafted: "error_message (fst (pollJobStatus ?st (js ''j1'') (Json_object ?drafted))) = None"
    "results_section Tab_pages (fst (pollJobStatus ?st (js ''j1'') (Json_object ?drafted))) =
       Some (Page_list
         [(js ''https://example.com'', js ''https://example.com'', 0),
          (js ''About'', js ''https://example.com/about'', 1)])"
    "results_section Tab_summaries (fst (pollJobStatus ?st (js ''j1'') (Json_object ?drafted))) =
       Some (Summary_list
         [\<lparr>summary_url = js ''https://example.com'', summary_title = js ''Home'',
           summary = js ''Sells tea''\<rparr>])"
    by simp_all
  from plain drafted show ?thesis
    by (intro conjI)
qed

subsection \<open>Stages of the progress display\<close>

lemma stageEmoji_keys:
  "(map_of stageEmoji k \<noteq> None) =
     (k \<in> set [js ''initializing'', js ''scraping'', js ''summarizing'', js ''categorizing'',
               js ''reporting'', js ''complete'', js ''error''])"
  by (simp add: stageEmoji_def)

text \<open>
  The stages \<open>pending\<close>, \<open>crawling\<close> and \<open>completed\<close> are not keys of \<open>stageEmoji\<close>; a
  snapshot in the stage \<open>pending\<close> is shown with the fallback hourglass.
\<close>

theorem stageEmoji_spec_stages_counterexample:
  "map_of stageEmoji (js ''pending'') = None \<and>
   map_of stageEmoji (js ''crawling'') = None \<and>
   map_of stageEmoji (js ''completed'') = None \<and>
   progress_emoji \<lparr>stage = js ''pending'', message = js ''Queued'', percent = 0\<rparr> =
     Emoji [0x23F3]"
  by (simp add: stageEmoji_def progress_emoji_def get_property_def object_prototype_keys_def
      js_def)

text \<open>
  C5, for the stage names the code has: the keys of \<open>stageEmoji\<close> are \<open>initializing\<close>, \<open>scraping\<close>, \<open>summarizing\<close>,
  \<open>categorizing\<close>, \<open>reporting\<close>, \<open>complete\<close> and \<open>error\<close>. For a progress snapshot whose stage
  is \<open>summarizing\<close>, \<open>categorizing\<close> or \<open>reporting\<close> the mapping is defined and its emoji is
  displayed; for \<open>pending\<close>, \<open>crawling\<close> and \<open>completed\<close> the mapping is not defined and the
  hourglass is displayed.
\<close>

theorem stageEmoji_recognised_stages:
  "(map_of stageEmoji k \<noteq> None) =
     (k \<in> set [js ''initializing'', js ''scraping'', js ''summarizing'', js ''categorizing'',
               js ''reporting'', js ''complete'', js ''error'']) \<and>
   (stage p \<in> set [js ''summarizing'', js ''categorizing'', js ''reporting''] \<longrightarrow>
      (\<exists>e. map_of stageEmoji (stage p) = Some e \<and> progress_emoji p = Emoji e)) \<and>
   (stage p \<in> set [js ''pending'', js ''crawling'', js ''completed''] \<longrightarrow>
      map_of stageEmoji (stage p) = None \<and> progress_emoji p = Emoji [0x23F3])"
proof (intro conjI impI)
  show "(map_of stageEmoji k \<noteq> None) =
     (k \<in> set [js ''initializing'', js ''scraping'', js ''summarizing'', js ''categorizing'',
               js ''reporting'', js ''complete'', js ''error''])"
    by (rule stageEmoji_keys)
next
  assume "stage p \<in> set [js ''summarizing'', js ''categorizing'', js ''reporting'']"
  then consider "stage p = js ''summarizing''" | "stage p = js ''categorizing''"
    | "stage p = js ''reporting''"
    by auto
  then show "\<exists>e. map_of stageEmoji (stage p) = Some e \<and> progress_emoji p = Emoji e"
    by cases
      (simp_all add: stageEmoji_def progress_emoji_def get_property_def truthy_def js_def)
next
  assume "stage p \<in> set [js ''pending'', js ''crawling'', js ''completed'']"
  then consider "stage p = js ''pending''" | "stage p = js ''crawling''"
    | "stage p = js ''completed''"
    by auto
  then have "map_of stageEmoji (stage p) = None \<and> progress_emoji p = Emoji [0x23F3]"
    by cases
      (simp_all add: stageEmoji_def progress_emoji_def get_property_def
        object_prototype_keys_def js_def)
  then show "map_of stageEmoji (stage p) = None" and "progress_emoji p = Emoji [0x23F3]"
    by simp_all
qed

text \<open>The theorem at a snapshot in the stage \<open>summarizing\<close> and at one in \<open>crawling\<close>.\<close>

theorem stageEmoji_recognised_stages_witness:
  "progress_emoji \<lparr>stage = js ''summarizing'', message = js ''Summarizing'', percent = 40\<rparr> =
     Emoji [0xD83D, 0xDCDD] \<and>
   progress_emoji \<lparr>stage = js ''crawling'', message = js ''Crawling'', percent = 10\<rparr> =
     Emoji [0x23F3]"
proof -
  let ?known = "\<lparr>stage = js ''summarizing'', message = js ''Summarizing'', percent = 40\<rparr>"
  let ?unknown = "\<lparr>stage = js ''crawling'', message = js ''Crawling'', percent = 10\<rparr>"
  have known: "stage ?known \<in> set [js ''summarizing'', js ''categorizing'', js ''reporting'']"
    and unknown: "stage ?unknown \<in> set [js ''pending'', js ''crawling'', js ''completed'']"
    by simp_all
  from stageEmoji_recognised_stages [of "[]" ?known] known
  obtain e where "map_of stageEmoji (stage ?known) = Some e" "progress_emoji ?known = Emoji e"
    by blast
  moreover have "map_of stageEmoji (stage ?known) = Some [0xD83D, 0xDCDD]"
    by (simp add: stageEmoji_def js_def)
  moreover from stageEmoji_recognised_stages [of "[]" ?unknown] unknown
  have "progress_emoji ?unknown = Emoji [0x23F3]"
    by blast
  ultimately show ?thesis by simp
qed

subsection \<open>The base URL\<close>

text \<open>
  C9: with \<open>REACT_APP_API_URL\<close> unset, the base URL of every request (model listing, status
  polling, research creation) is \<^verbatim>\<open>http://localhost:8001\<close>, which is not the default
  \<^verbatim>\<open>http://localhost:8000\<close> that the README documents.
\<close>

theorem API_BASE_unset_uses_port_8001:
  "API_BASE None = js ''http://localhost:8001'' \<and>
   API_BASE None \<noteq> README_default_api_url \<and>
   models_request None = GET (js ''http://localhost:8001/models'') \<and>
   pollJobStatus_request None jobId = GET (js ''http://localhost:8001/research/'' @ jobId) \<and>
   startResearch None
     (initial_state\<lparr>websiteUrl := js ''https://example.com'',
                     questions := [Str (js ''Who leads it?'')]\<rparr>) =
   Sent (initial_state\<lparr>websiteUrl := js ''https://example.com'',
                        questions := [Str (js ''Who leads it?'')], isLoading := True\<rparr>)
     (POST (js ''http://localhost:8001/research'')
        \<lparr>website_url = js ''https://example.com'', body_questions = [js ''Who leads it?''],
         model = js ''claude-sonnet-4-20250514'', max_pages = 30, max_depth = 2\<rparr>)"
  by (simp add: API_BASE_def README_default_api_url_def models_request_def
      pollJobStatus_request_def startResearch_def initial_state_def truthy_def trim_def
      is_white_space_def js_def)

subsection \<open>Resetting the form\<close>

text \<open>
  C10: \<open>resetForm\<close> clears the current job, the error message, the website URL and the
  question list (back to one blank entry), and leaves the six other state variables as
  they were: the selected model, the models, \<open>maxPages\<close>, \<open>maxDepth\<close>, the loading flag and
  the settings toggle.
\<close>

theorem resetForm_frame:
  "currentJob (resetForm st) = None \<and>
   error (resetForm st) = None \<and>
   websiteUrl (resetForm st) = [] \<and>
   questions (resetForm st) = [Str []] \<and>
   selectedModel (resetForm st) = selectedModel st \<and>
   models (resetForm st) = models st \<and>
   maxPages (resetForm st) = maxPages st \<and>
   maxDepth (resetForm st) = maxDepth st \<and>
   isLoading (resetForm st) = isLoading st \<and>
   showSettings (resetForm st) = showSettings st"
  by (simp add: resetForm_def)


subsection \<open>The question list\<close>

lemma length_spread: "length (spread qs) = length qs"
  by (simp add: spread_def)

lemma spread_no_hole: "Hole \<notin> set (spread qs)"
proof -
  have "Hole \<noteq> spread_entry q" for q
    by (cases q) simp_all
  then show ?thesis
    by (auto simp: spread_def)
qed

lemma filter_no_hole: "Hole \<notin> set qs \<Longrightarrow> filter (\<lambda>q. q \<noteq> Hole) qs = qs"
  by (induction qs) auto

lemma length_rows_from: "length (rows_from i qs) = length (filter (\<lambda>q. q \<noteq> Hole) qs)"
  by (induction qs arbitrary: i) simp_all

lemma length_question_rows: "length (question_rows qs) = length (filter (\<lambda>q. q \<noteq> Hole) qs)"
  by (simp add: question_rows_def length_rows_from)

lemma question_rows_dense: "Hole \<notin> set qs \<Longrightarrow> length (question_rows qs) = length qs"
  by (simp add: length_question_rows filter_no_hole)

lemma filter_other_indices_no_hole: "Hole \<notin> set (filter_other_indices i index qs)"
  by (induction qs arbitrary: i) auto

lemma filter_other_indices_past:
  "index < i \<Longrightarrow> filter_other_indices i index qs = filter (\<lambda>q. q \<noteq> Hole) qs"
  by (induction qs arbitrary: i) auto

lemma filter_other_indices_subset: "set (filter_other_indices i index qs) \<subseteq> set qs"
  by (induction qs arbitrary: i) auto

lemma filter_other_indices_length:
  "length (filter (\<lambda>q. q \<noteq> Hole) qs) \<le> Suc (length (filter_other_indices i index qs))"
proof (induction qs arbitrary: i)
  case Nil
  then show ?case by simp
next
  case (Cons q qs)
  show ?case
  proof (cases "q \<noteq> Hole \<and> i = index")
    case True
    then have "filter_other_indices (Suc i) index qs = filter (\<lambda>q. q \<noteq> Hole) qs"
      by (simp add: filter_other_indices_past)
    with True show ?thesis by simp
  next
    case False
    then show ?thesis
      using Cons.IH [of "Suc i"] by auto
  qed
qed

lemma length_addQuestion: "length (addQuestion qs) = length qs + 1"
  by (simp add: addQuestion_def length_spread)

lemma length_updateQuestion: "i < length qs \<Longrightarrow> length (updateQuestion i v qs) = length qs"
  by (simp add: updateQuestion_def length_spread)

lemma removeQuestion_single: "length qs = 1 \<Longrightarrow> removeQuestion i qs = qs"
  by (simp add: removeQuestion_def)

text \<open>
  What every operation keeps: the list is dense and not empty, or, if it has holes, it has
  at least two rows.
\<close>

lemma apply_question_op_keeps_rows:
  assumes "(Hole \<notin> set qs \<and> qs \<noteq> []) \<or> 2 \<le> length (question_rows qs)"
  shows "(Hole \<notin> set (apply_question_op qs op) \<and> apply_question_op qs op \<noteq> []) \<or>
         2 \<le> length (question_rows (apply_question_op qs op))"
proof -
  from assms have nonempty: "qs \<noteq> []"
    by (auto simp: question_rows_def)
  show ?thesis
  proof (cases op)
    case Add
    then show ?thesis
      using spread_no_hole [of qs] by (simp add: addQuestion_def)
  next
    case (Update i v)
    show ?thesis
    proof (cases "i < length qs")
      case True
      have "set ((spread qs)[i := Str v]) \<subseteq> insert (Str v) (set (spread qs))"
        by (rule set_update_subset_insert)
      then have "Hole \<notin> set ((spread qs)[i := Str v])"
        using spread_no_hole [of qs] by auto
      moreover have "(spread qs)[i := Str v] \<noteq> []"
        using nonempty by (simp add: spread_def)
      ultimately show ?thesis
        using Update True by (simp add: updateQuestion_def length_spread)
    next
      case False
      have "filter (\<lambda>q. q \<noteq> Hole) (spread qs) = spread qs"
        using spread_no_hole [of qs] by (rule filter_no_hole)
      then have "length (question_rows (updateQuestion i v qs)) = length qs + 1"
        using False by (simp add: updateQuestion_def length_spread length_question_rows)
      with nonempty have "2 \<le> length (question_rows (updateQuestion i v qs))"
        by (cases qs) simp_all
      with Update show ?thesis by simp
    qed
  next
    case (Remove i)
    show ?thesis
    proof (cases "1 < length qs")
      case True
      have "2 \<le> length (filter (\<lambda>q. q \<noteq> Hole) qs)"
        using assms True by (auto simp: length_question_rows filter_no_hole)
      then have "filter_other_indices 0 i qs \<noteq> []"
        using filter_other_indices_length [of qs 0 i] by auto
      with Remove True show ?thesis
        by (simp add: removeQuestion_def filter_other_indices_no_hole)
    next
      case False
      with Remove assms show ?thesis
        by (simp add: removeQuestion_def)
    qed
  next
    case Reset
    then show ?thesis by simp
  qed
qed

lemma foldl_question_ops_keep_rows:
  "(Hole \<notin> set qs \<and> qs \<noteq> []) \<or> 2 \<le> length (question_rows qs) \<Longrightarrow>
   (Hole \<notin> set (foldl apply_question_op qs ops) \<and> foldl apply_question_op qs ops \<noteq> []) \<or>
   2 \<le> length (question_rows (foldl apply_question_op qs ops))"
proof (induction ops arbitrary: qs)
  case Nil
  then show ?case by simp
next
  case (Cons op ops)
  show ?case
    using Cons.IH [OF apply_question_op_keeps_rows [OF Cons.prems, of op]] by simp
qed

lemma rows_exist:
  "(Hole \<notin> set qs \<and> qs \<noteq> []) \<or> 2 \<le> length (question_rows qs) \<Longrightarrow> question_rows qs \<noteq> []"
  using question_rows_dense [of qs] by (cases "question_rows qs") auto

text \<open>
  The handlers of the application touch the question list only through the four
  operations, and leave the two crawl limits alone except for the sliders.
\<close>

lemma startResearch_fields:
  "startResearch env st = Invalid st' \<or> startResearch env st = Sent st' r \<Longrightarrow>
   questions st' = questions st \<and> maxPages st' = maxPages st \<and> maxDepth st' = maxDepth st"
  by (auto simp: startResearch_def split: if_splits sum.splits)

lemma startResearch_response_fields:
  "questions (fst (startResearch_response st r)) = questions st \<and>
   maxPages (fst (startResearch_response st r)) = maxPages st \<and>
   maxDepth (fst (startResearch_response st r)) = maxDepth st"
  by (cases r) simp_all

lemma pollJobStatus_fields:
  "questions (fst (pollJobStatus st jobId r)) = questions st \<and>
   maxPages (fst (pollJobStatus st jobId r)) = maxPages st \<and>
   maxDepth (fst (pollJobStatus st jobId r)) = maxDepth st"
  by (cases r) simp_all

lemma handle_questions:
  "questions (handle env st ev) = questions st \<or>
   (\<exists>op. questions (handle env st ev) = apply_question_op (questions st) op)"
proof (cases ev)
  case Click_add_question
  then have "questions (handle env st ev) = apply_question_op (questions st) Add"
    by simp
  then show ?thesis by blast
next
  case (Change_question i v)
  then have "questions (handle env st ev) = apply_question_op (questions st) (Update i v)"
    by simp
  then show ?thesis by blast
next
  case (Click_remove_question i)
  then have "questions (handle env st ev) = apply_question_op (questions st) (Remove i)"
    by simp
  then show ?thesis by blast
next
  case Click_reset
  then have "questions (handle env st ev) = apply_question_op (questions st) Reset"
    by (simp add: resetForm_def)
  then show ?thesis by blast
next
  case Click_start
  then show ?thesis
    using startResearch_fields [of env st]
    by (cases "startResearch env st") auto
next
  case (Post_settled r)
  then show ?thesis
    by (simp add: startResearch_response_fields)
next
  case (Poll_settled jobId r)
  then show ?thesis
    by (simp add: pollJobStatus_fields)
qed simp_all

lemma run_keeps_rows:
  "run env st evs = Some st' \<Longrightarrow>
   (Hole \<notin> set (questions st) \<and> questions st \<noteq> []) \<or> 2 \<le> length (question_rows (questions st)) \<Longrightarrow>
   (Hole \<notin> set (questions st') \<and> questions st' \<noteq> []) \<or> 2 \<le> length (question_rows (questions st'))"
proof (induction evs arbitrary: st)
  case Nil
  then show ?case by simp
next
  case (Cons ev evs)
  from Cons.prems(1) have on: "enabled st ev" and rest: "run env (handle env st ev) evs = Some st'"
    by (simp_all split: if_splits)
  have "(Hole \<notin> set (questions (handle env st ev)) \<and> questions (handle env st ev) \<noteq> []) \<or>
        2 \<le> length (question_rows (questions (handle env st ev)))"
    using handle_questions [of env st ev] Cons.prems(2) apply_question_op_keeps_rows
    by (metis (no_types, lifting))
  with Cons.IH rest show ?case by blast
qed

text \<open>
  C8: the question list starts with one entry; \<open>addQuestion\<close> makes it one longer;
  \<open>updateQuestion\<close> at an index of the list keeps its length; \<open>removeQuestion\<close> on a list of
  exactly one entry changes nothing, and the remove button is disabled then. So after any
  sequence of the operations, with any arguments, and in every state the application
  reaches, at least one question row exists.
\<close>

theorem question_list_never_empty:
  "questions initial_state = [Str []] \<and>
   length (addQuestion qs) = length qs + 1 \<and>
   (i < length qs \<longrightarrow> length (updateQuestion i v qs) = length qs) \<and>
   (length qs = 1 \<longrightarrow> removeQuestion i qs = qs \<and> remove_disabled qs) \<and>
   question_rows (foldl apply_question_op (questions initial_state) ops) \<noteq> [] \<and>
   (run env initial_state evs = Some st \<longrightarrow>
      questions st \<noteq> [] \<and> question_rows (questions st) \<noteq> [])"
proof -
  have start: "(Hole \<notin> set (questions initial_state) \<and> questions initial_state \<noteq> []) \<or>
      2 \<le> length (question_rows (questions initial_state))"
    by (simp add: initial_state_def)
  have "question_rows (foldl apply_question_op (questions initial_state) ops) \<noteq> []"
    using foldl_question_ops_keep_rows [OF start] by (rule rows_exist)
  moreover have "questions st \<noteq> [] \<and> question_rows (questions st) \<noteq> []"
    if "run env initial_state evs = Some st"
  proof -
    have "question_rows (questions st) \<noteq> []"
      using run_keeps_rows [OF that start] by (rule rows_exist)
    then show ?thesis
      by (auto simp: question_rows_def)
  qed
  ultimately show ?thesis
    by (simp add: initial_state_def length_addQuestion length_updateQuestion
        removeQuestion_single remove_disabled_def)
qed

text \<open>
  The theorem at lists of one entry, and at the state reached by adding a question,
  typing into the second row and removing the first.
\<close>

theorem question_list_never_empty_witness:
  "length (updateQuestion 0 (js ''Who leads it?'') [Str []]) = 1 \<and>
   removeQuestion 0 [Str (js ''Who leads it?'')] = [Str (js ''Who leads it?'')] \<and>
   run None initial_state
     [Click_add_question, Change_question 1 (js ''Who leads it?''), Click_remove_question 0] =
     Some (initial_state\<lparr>questions := [Str (js ''Who leads it?'')]\<rparr>) \<and>
   question_rows [Str (js ''Who leads it?'')] \<noteq> []"
proof -
  let ?evs = "[Click_add_question, Change_question 1 (js ''Who leads it?''), Click_remove_question 0]"
  let ?st = "initial_state\<lparr>questions := [Str (js ''Who leads it?'')]\<rparr>"
  have ran: "run None initial_state ?evs = Some ?st"
    by (simp add: initial_state_def shows_results_def question_rows_def remove_disabled_def
        addQuestion_def updateQuestion_def removeQuestion_def spread_def)
  have one: "(0::nat) < length [Str []]" and single: "length [Str (js ''Who leads it?'')] = 1"
    by simp_all
  from question_list_never_empty [of "[Str []]" 0 "js ''Who leads it?''" "[]" None ?evs ?st] one
  have "length (updateQuestion 0 (js ''Who leads it?'') [Str []]) = 1"
    by simp
  moreover from question_list_never_empty
      [of "[Str (js ''Who leads it?'')]" 0 "[]" "[]" None ?evs ?st] single
  have "removeQuestion 0 [Str (js ''Who leads it?'')] = [Str (js ''Who leads it?'')]"
    by blast
  moreover from question_list_never_empty [of "[]" 0 "[]" "[]" None ?evs ?st] ran
  have "question_rows (questions ?st) \<noteq> []"
    by blast
  ultimately show ?thesis
    using ran by simp
qed

text \<open>
  A row's index lies within the list, so the events of the rendered rows never write past
  its end: in every state the application reaches, each entry is an entered string, and
  the filter of \<open>startResearch\<close> does not raise.
\<close>

lemma rows_from_index:
  "(i, q) \<in> set (rows_from k qs) \<Longrightarrow> k \<le> i \<and> i < k + length qs"
proof (induction qs arbitrary: k)
  case Nil
  then show ?case by simp
next
  case (Cons a qs)
  then show ?case
    by (fastforce split: if_splits)
qed

lemma question_row_index:
  "i \<in> set (map fst (question_rows qs)) \<Longrightarrow> i < length qs"
  using rows_from_index [of i _ 0 qs] by (auto simp: question_rows_def)

lemma spread_strings:
  "\<forall>q \<in> set qs. \<exists>s. q = Str s \<Longrightarrow> spread qs = qs"
  by (induction qs) (auto simp: spread_def)

lemma handle_keeps_strings:
  assumes "enabled st ev" and "\<forall>q \<in> set (questions st). \<exists>s. q = Str s"
  shows "\<forall>q \<in> set (questions (handle env st ev)). \<exists>s. q = Str s"
proof (cases ev)
  case Click_add_question
  then show ?thesis
    using assms(2) by (simp add: addQuestion_def spread_strings)
next
  case (Change_question i v)
  with assms(1) have "i < length (questions st)"
    using question_row_index by simp
  moreover have "set ((questions st)[i := Str v]) \<subseteq> insert (Str v) (set (questions st))"
    by (rule set_update_subset_insert)
  ultimately show ?thesis
    using Change_question assms(2) by (auto simp: updateQuestion_def spread_strings)
next
  case (Click_remove_question i)
  then show ?thesis
    using assms(2) filter_other_indices_subset [of 0 i "questions st"]
    by (auto simp: removeQuestion_def)
next
  case Click_start
  then show ?thesis
    using assms(2) startResearch_fields [of env st]
    by (cases "startResearch env st") auto
next
  case Click_reset
  then show ?thesis
    by (simp add: resetForm_def)
next
  case (Post_settled r)
  then show ?thesis
    using assms(2) by (simp add: startResearch_response_fields)
next
  case (Poll_settled jobId r)
  then show ?thesis
    using assms(2) by (simp add: pollJobStatus_fields)
qed (use assms(2) in simp_all)

lemma run_keeps_strings:
  "run env st evs = Some st' \<Longrightarrow> \<forall>q \<in> set (questions st). \<exists>s. q = Str s \<Longrightarrow>
   \<forall>q \<in> set (questions st'). \<exists>s. q = Str s"
proof (induction evs arbitrary: st)
  case Nil
  then show ?case by simp
next
  case (Cons ev evs)
  from Cons.prems(1) have on: "enabled st ev" and rest: "run env (handle env st ev) evs = Some st'"
    by (simp_all split: if_splits)
  show ?case
    using Cons.IH [OF rest handle_keeps_strings [OF on Cons.prems(2)]] .
qed

lemma reachable_questions_are_strings:
  "run env initial_state evs = Some st \<Longrightarrow>
   (\<forall>q \<in> set (questions st). \<exists>s. q = Str s) \<and> (\<forall>e. startResearch env st \<noteq> Threw e)"
proof -
  assume ran: "run env initial_state evs = Some st"
  have "\<forall>q \<in> set (questions initial_state). \<exists>s. q = Str s"
    by (simp add: initial_state_def)
  with ran have strings: "\<forall>q \<in> set (questions st). \<exists>s. q = Str s"
    by (rule run_keeps_strings)
  then have "Undef \<notin> set (questions st)"
    by auto
  then have "\<forall>e. validQuestions (questions st) \<noteq> Inl e"
    by (simp add: validQuestions_threw)
  then have "\<forall>e. startResearch env st \<noteq> Threw e"
    by (auto simp: startResearch_def split: sum.splits)
  with strings show ?thesis by blast
qed

subsection \<open>The crawl limits of a request\<close>

lemma handle_limits:
  assumes "enabled st ev"
    and "10 \<le> maxPages st \<and> maxPages st \<le> 100 \<and> 1 \<le> maxDepth st \<and> maxDepth st \<le> 5"
  shows "10 \<le> maxPages (handle env st ev) \<and> maxPages (handle env st ev) \<le> 100 \<and>
         1 \<le> maxDepth (handle env st ev) \<and> maxDepth (handle env st ev) \<le> 5"
proof (cases ev)
  case Click_start
  then show ?thesis
    using assms(2) startResearch_fields [of env st]
    by (cases "startResearch env st") auto
next
  case (Post_settled r)
  then show ?thesis
    using assms(2) by (simp add: startResearch_response_fields)
next
  case (Poll_settled jobId r)
  then show ?thesis
    using assms(2) by (simp add: pollJobStatus_fields)
next
  case Click_reset
  then show ?thesis
    using assms(2) by (simp add: resetForm_def)
qed (use assms in simp_all)

lemma run_keeps_limits:
  "run env st evs = Some st' \<Longrightarrow>
   10 \<le> maxPages st \<and> maxPages st \<le> 100 \<and> 1 \<le> maxDepth st \<and> maxDepth st \<le> 5 \<Longrightarrow>
   10 \<le> maxPages st' \<and> maxPages st' \<le> 100 \<and> 1 \<le> maxDepth st' \<and> maxDepth st' \<le> 5"
proof (induction evs arbitrary: st)
  case Nil
  then show ?case by simp
next
  case (Cons ev evs)
  from Cons.prems(1) have on: "enabled st ev" and rest: "run env (handle env st ev) evs = Some st'"
    by (simp_all split: if_splits)
  show ?case
    using Cons.IH [OF rest handle_limits [OF on Cons.prems(2)]] .
qed

text \<open>
  C6: the limits start at 30 pages and depth 2, and in every state the application reaches
  they lie in [10,100] and [1,5], where the sliders confine them. Every job-creation
  request carries the limits of the state it is sent from, so they are inside the ranges
  [1,100] and [0,5] that \<open>create_job\<close> accepts. The depth 0 is inside the accepted range as
  well.
\<close>

theorem request_limits_accepted:
  "maxPages initial_state = 30 \<and> maxDepth initial_state = 2 \<and>
   (run env initial_state evs = Some st \<longrightarrow>
      10 \<le> maxPages st \<and> maxPages st \<le> 100 \<and> 1 \<le> maxDepth st \<and> maxDepth st \<le> 5 \<and>
      (\<forall>st' u b. startResearch env st = Sent st' (POST u b) \<longrightarrow>
         max_pages b = maxPages st \<and> max_depth b = maxDepth st \<and>
         create_job_accepts_limits (max_pages b) (max_depth b))) \<and>
   (1 \<le> pages_limit \<and> pages_limit \<le> 100 \<longrightarrow> create_job_accepts_limits pages_limit 0)"
proof -
  have start: "10 \<le> maxPages initial_state \<and> maxPages initial_state \<le> 100 \<and>
      1 \<le> maxDepth initial_state \<and> maxDepth initial_state \<le> 5"
    by (simp add: initial_state_def)
  have "10 \<le> maxPages st \<and> maxPages st \<le> 100 \<and> 1 \<le> maxDepth st \<and> maxDepth st \<le> 5 \<and>
      (\<forall>st' u b. startResearch env st = Sent st' (POST u b) \<longrightarrow>
         max_pages b = maxPages st \<and> max_depth b = maxDepth st \<and>
         create_job_accepts_limits (max_pages b) (max_depth b))"
    if ran: "run env initial_state evs = Some st"
  proof -
    have limits: "10 \<le> maxPages st \<and> maxPages st \<le> 100 \<and> 1 \<le> maxDepth st \<and> maxDepth st \<le> 5"
      using run_keeps_limits [OF ran start] .
    have "max_pages b = maxPages st \<and> max_depth b = maxDepth st \<and>
         create_job_accepts_limits (max_pages b) (max_depth b)"
      if "startResearch env st = Sent st' (POST u b)" for st' u b
    proof -
      from that have "max_pages b = maxPages st \<and> max_depth b = maxDepth st"
        by (auto simp: startResearch_def split: if_splits sum.splits)
      with limits show ?thesis
        by (simp add: create_job_accepts_limits_def)
    qed
    with limits show ?thesis by blast
  qed
  moreover have "maxPages initial_state = 30 \<and> maxDepth initial_state = 2"
    by (simp add: initial_state_def)
  moreover have "1 \<le> pages_limit \<and> pages_limit \<le> 100 \<longrightarrow>
      create_job_accepts_limits pages_limit 0"
    by (simp add: create_job_accepts_limits_def)
  ultimately show ?thesis by blast
qed

text \<open>
  The theorem at the state reached by opening the settings, moving both sliders to an end
  and filling the form in; the depth slider cannot be moved to 0.
\<close>

theorem request_limits_accepted_witness:
  "run None initial_state
     [Click_settings_toggle, Change_max_pages 100, Change_max_depth 1,
      Change_url (js ''https://example.com''), Change_question 0 (js ''Who leads it?'')] =
     Some (initial_state\<lparr>showSettings := True, maxPages := 100, maxDepth := 1,
            websiteUrl := js ''https://example.com'',
            questions := [Str (js ''Who leads it?'')]\<rparr>) \<and>
   startResearch None
     (initial_state\<lparr>showSettings := True, maxPages := 100, maxDepth := 1,
            websiteUrl := js ''https://example.com'',
            questions := [Str (js ''Who leads it?'')]\<rparr>) =
     Sent (initial_state\<lparr>showSettings := True, maxPages := 100, maxDepth := 1,
            websiteUrl := js ''https://example.com'',
            questions := [Str (js ''Who leads it?'')], isLoading := True\<rparr>)
       (POST (js ''http://localhost:8001/research'')
          \<lparr>website_url = js ''https://example.com'', body_questions = [js ''Who leads it?''],
           model = js ''claude-sonnet-4-20250514'', max_pages = 100, max_depth = 1\<rparr>) \<and>
   create_job_accepts_limits 100 1 \<and>
   create_job_accepts_limits 100 0 \<and>
   run None initial_state [Click_settings_toggle, Change_max_depth 0] = None"
proof -
  let ?evs = "[Click_settings_toggle, Change_max_pages 100, Change_max_depth 1,
      Change_url (js ''https://example.com''), Change_question 0 (js ''Who leads it?'')]"
  let ?st = "initial_state\<lparr>showSettings := True, maxPages := 100, maxDepth := 1,
            websiteUrl := js ''https://example.com'',
            questions := [Str (js ''Who leads it?'')]\<rparr>"
  let ?body = "\<lparr>website_url = js ''https://example.com'', body_questions = [js ''Who leads it?''],
           model = js ''claude-sonnet-4-20250514'', max_pages = 100, max_depth = 1\<rparr>"
  have ran: "run None initial_state ?evs = Some ?st"
    by (simp add: initial_state_def shows_results_def question_rows_def updateQuestion_def
        spread_def)
  have sent: "startResearch None ?st =
      Sent (?st\<lparr>isLoading := True\<rparr>) (POST (js ''http://localhost:8001/research'') ?body)"
    by (simp add: startResearch_def initial_state_def API_BASE_def truthy_def trim_def
        is_white_space_def js_def)
  have range: "(1::int) \<le> 100 \<and> (100::int) \<le> 100"
    by simp
  from request_limits_accepted [of None ?evs ?st 100] ran sent range
  have "create_job_accepts_limits (max_pages ?body) (max_depth ?body)"
    and "create_job_accepts_limits 100 0"
    by blast+
  moreover have "run None initial_state [Click_settings_toggle, Change_max_depth 0] = None"
    by (simp add: initial_state_def shows_results_def)
  ultimately show ?thesis
    using ran sent by simp
qed


section \<open>Properties of the backend's contract\<close>

subsection \<open>The crawl\<close>

text \<open>
  The traversal keeps four facts about the pages collected so far: their URLs are distinct,
  each of them is marked visited, their depths are within the limit, and their number is
  within the budget.
\<close>

lemma crawl_loop_invariant:
  "distinct (map page_url (pages s)) \<Longrightarrow>
   set (map page_url (pages s)) \<subseteq> set (visited s) \<Longrightarrow>
   (\<forall>p \<in> set (pages s). page_depth p \<le> depth_limit) \<Longrightarrow>
   length (pages s) \<le> page_budget \<Longrightarrow>
   distinct (map page_url (pages (crawl_loop fetch page_budget depth_limit s))) \<and>
   (\<forall>p \<in> set (pages (crawl_loop fetch page_budget depth_limit s)). page_depth p \<le> depth_limit) \<and>
   length (pages (crawl_loop fetch page_budget depth_limit s)) \<le> page_budget"
proof (induction fetch page_budget depth_limit s rule: crawl_loop.induct)
  case (1 fetch page_budget depth_limit s)
  show ?case
  proof (cases "frontier s")
    case Nil
    with "1.prems" show ?thesis
      by (simp add: crawl_loop.simps [of fetch page_budget depth_limit s])
  next
    case (Cons t rest)
    show ?thesis
    proof (cases "page_budget \<le> length (pages s)")
      case True
      with Cons "1.prems" show ?thesis
        by (simp add: crawl_loop.simps [of fetch page_budget depth_limit s])
    next
      case budget: False
      show ?thesis
      proof (cases "depth_limit < target_depth t \<or> target_url t \<in> set (visited s)")
        case True
        have "crawl_loop fetch page_budget depth_limit s =
              crawl_loop fetch page_budget depth_limit (s\<lparr>frontier := rest\<rparr>)"
          using Cons budget True
          by (simp add: crawl_loop.simps [of fetch page_budget depth_limit s])
        moreover have "distinct (map page_url (pages (crawl_loop fetch page_budget depth_limit (s\<lparr>frontier := rest\<rparr>)))) \<and>
          (\<forall>p \<in> set (pages (crawl_loop fetch page_budget depth_limit (s\<lparr>frontier := rest\<rparr>))). page_depth p \<le> depth_limit) \<and>
          length (pages (crawl_loop fetch page_budget depth_limit (s\<lparr>frontier := rest\<rparr>))) \<le> page_budget"
          using "1.IH"(1) [OF Cons budget True] "1.prems" by simp
        ultimately show ?thesis by simp
      next
        case fresh: False
        show ?thesis
        proof (cases "fetch (target_url t)")
          case None
          let ?s' = "s\<lparr>frontier := rest, visited := target_url t # visited s,
                      failures := failures s @ [target_url t]\<rparr>"
          have "crawl_loop fetch page_budget depth_limit s = crawl_loop fetch page_budget depth_limit ?s'"
            using Cons budget fresh None
            by (simp add: crawl_loop.simps [of fetch page_budget depth_limit s])
          moreover have "distinct (map page_url (pages (crawl_loop fetch page_budget depth_limit ?s'))) \<and>
            (\<forall>p \<in> set (pages (crawl_loop fetch page_budget depth_limit ?s')). page_depth p \<le> depth_limit) \<and>
            length (pages (crawl_loop fetch page_budget depth_limit ?s')) \<le> page_budget"
            using "1.IH"(2) [OF Cons budget fresh None] "1.prems" by auto
          ultimately show ?thesis by simp
        next
          case (Some r)
          obtain ttl body links where r: "r = (ttl, body, links)"
            by (cases r) auto
          let ?s' = "s\<lparr>frontier :=
                        rest @ discovered depth_limit (target_url t # visited s)
                                 (target_depth t) links,
                      visited := target_url t # visited s,
                      pages := pages s @
                        [\<lparr>page_url = target_url t, page_title = ttl, extracted_text = body,
                          page_depth = target_depth t, outbound_links = links\<rparr>]\<rparr>"
          have "crawl_loop fetch page_budget depth_limit s = crawl_loop fetch page_budget depth_limit ?s'"
            using Cons budget fresh Some r
            by (simp add: crawl_loop.simps [of fetch page_budget depth_limit s])
          moreover have "distinct (map page_url (pages (crawl_loop fetch page_budget depth_limit ?s'))) \<and>
            (\<forall>p \<in> set (pages (crawl_loop fetch page_budget depth_limit ?s')). page_depth p \<le> depth_limit) \<and>
            length (pages (crawl_loop fetch page_budget depth_limit ?s')) \<le> page_budget"
          proof (rule "1.IH"(3) [OF Cons budget fresh Some _ _])
            show "(ttl, body, links) = r" using r by simp
            show "(body, links) = (body, links)" by simp
            show "distinct (map page_url (pages ?s'))"
              using "1.prems" fresh by auto
            show "set (map page_url (pages ?s')) \<subseteq> set (visited ?s')"
              using "1.prems" by auto
            show "\<forall>p \<in> set (pages ?s'). page_depth p \<le> depth_limit"
              using "1.prems" fresh by auto
            show "length (pages ?s') \<le> page_budget"
              using budget by simp
          qed
          ultimately show ?thesis by simp
        qed
      qed
    qed
  qed
qed

text \<open>
  C2: for every site, seed URL, page budget and depth limit, the sequence of pages that the
  crawl returns repeats no URL, holds only pages of depth at most the limit, and is at most
  as long as the page budget.
\<close>

theorem crawl_result_bounded:
  "distinct (map page_url (crawl fetch seed page_budget depth_limit)) \<and>
   (\<forall>p \<in> set (crawl fetch seed page_budget depth_limit). page_depth p \<le> depth_limit) \<and>
   length (crawl fetch seed page_budget depth_limit) \<le> page_budget"
  unfolding crawl_def by (rule crawl_loop_invariant) simp_all

text \<open>
  The theorem on a site with a cycle between two pages and a third page out of the depth
  limit.
\<close>

theorem crawl_result_bounded_witness:
  "distinct (map page_url
     (crawl (\<lambda>u. if u = ''a'' then Some (''A'', ''home'', [''b'', ''a'', ''x''])
                else if u = ''b'' then Some (''B'', ''about'', [''a'', ''c''])
                else if u = ''c'' then Some (''C'', ''deep'', [''d''])
                else None) ''a'' 5 1)) \<and>
   length (crawl (\<lambda>u. if u = ''a'' then Some (''A'', ''home'', [''b'', ''a'', ''x''])
                else if u = ''b'' then Some (''B'', ''about'', [''a'', ''c''])
                else if u = ''c'' then Some (''C'', ''deep'', [''d''])
                else None) ''a'' 5 1) \<le> 5 \<and>
   map (\<lambda>p. (page_url p, page_depth p))
     (crawl (\<lambda>u. if u = ''a'' then Some (''A'', ''home'', [''b'', ''a'', ''x''])
                else if u = ''b'' then Some (''B'', ''about'', [''a'', ''c''])
                else if u = ''c'' then Some (''C'', ''deep'', [''d''])
                else None) ''a'' 5 1) = [(''a'', 0), (''b'', 1)]"
proof -
  let ?site = "\<lambda>u. if u = ''a'' then Some (''A'', ''home'', [''b'', ''a'', ''x''])
                else if u = ''b'' then Some (''B'', ''about'', [''a'', ''c''])
                else if u = ''c'' then Some (''C'', ''deep'', [''d''])
                else None"
  have "map (\<lambda>p. (page_url p, page_depth p)) (crawl ?site ''a'' 5 1) = [(''a'', 0), (''b'', 1)]"
    by (simp add: crawl_def crawl_loop.simps discovered_def)
  then show ?thesis
    using crawl_result_bounded [of ?site "''a''" 5 1] by simp
qed


subsection \<open>Terminal states\<close>

text \<open>
  A terminal state has no transition, so a job observed in it stays in it; the terminal
  states are the three that the polling client stops on.
\<close>

lemma terminal_transitions: "terminal s \<Longrightarrow> transitions s = []"
  by (cases s) (simp_all add: transitions_def)

lemma job_history_terminal:
  "job_history (s # later_states) \<Longrightarrow> terminal s \<Longrightarrow> \<forall>s' \<in> set later_states. s' = s"
proof (induction later_states)
  case Nil
  then show ?case by simp
next
  case (Cons a later_states)
  from Cons.prems have a: "a = s"
    by (simp add: terminal_transitions)
  with Cons.prems have "job_history (s # later_states)"
    by (cases later_states) (simp_all add: terminal_transitions)
  with Cons.IH Cons.prems a show ?case by simp
qed

lemma terminal_iff_client: "terminal s \<longleftrightarrow> is_terminal_status (Some (state_name s))"
  by (cases s) (simp_all add: is_terminal_status_def js_def)

text \<open>
  Once an answer stops the chain, the answers after it are never asked for: the chain is
  the same without them, and it has issued at most one request per answer up to that one.
\<close>

lemma poll_chain_after_stop:
  "snd (pollJobStatus st' jobId r) = None \<Longrightarrow>
   poll_chain env st jobId (earlier @ r # later) = poll_chain env st jobId (earlier @ [r])"
proof (induction earlier arbitrary: st)
  case Nil
  have stop: "snd (pollJobStatus st jobId r) = None"
    using Nil by (simp add: pollJobStatus_timer)
  have "poll_chain env st jobId (r # later) = poll_chain env st jobId [r]"
    using poll_chain_stop [OF stop, of env later] poll_chain_stop [OF stop, of env "[]"]
    by simp
  then show ?case by simp
next
  case (Cons a earlier)
  show ?case
  proof (cases "snd (pollJobStatus st jobId a)")
    case None
    then show ?thesis
      using poll_chain_stop [OF None, of env] by simp
  next
    case (Some t)
    then have t: "timer_job t = jobId"
      using pollJobStatus_timer [of st jobId a]
      by (auto split: fetch_result.splits if_splits)
    show ?thesis
      using poll_chain_continue [OF Some, of env] t Cons.IH [OF Cons.prems] by simp
  qed
qed

lemma poll_chain_length:
  "length (snd (poll_chain env st jobId rs)) \<le> length rs + 1"
proof (induction rs arbitrary: st jobId)
  case Nil
  then show ?case by simp
next
  case (Cons r rs)
  show ?case
  proof (cases "snd (pollJobStatus st jobId r)")
    case None
    then show ?thesis
      using poll_chain_stop [OF None, of env rs] by simp
  next
    case (Some t)
    then show ?thesis
      using poll_chain_continue [OF Some, of env rs]
        Cons.IH [of "fst (pollJobStatus st jobId r)" "timer_job t"] by simp
  qed
qed

lemma poll_chain_polls_until_stop:
  "snd (pollJobStatus st' jobId r) = None \<Longrightarrow>
   length (snd (poll_chain env st jobId (earlier @ r # later))) \<le> length earlier + 1"
proof (induction earlier arbitrary: st)
  case Nil
  have stop: "snd (pollJobStatus st jobId r) = None"
    using Nil by (simp add: pollJobStatus_timer)
  show ?case
    using poll_chain_stop [OF stop, of env later] by simp
next
  case (Cons a earlier)
  show ?case
  proof (cases "snd (pollJobStatus st jobId a)")
    case None
    then show ?thesis
      using poll_chain_stop [OF None, of env] by simp
  next
    case (Some t)
    then have t: "timer_job t = jobId"
      using pollJobStatus_timer [of st jobId a]
      by (auto split: fetch_result.splits if_splits)
    show ?thesis
      using poll_chain_continue [OF Some, of env] t
        Cons.IH [OF Cons.prems, of "fst (pollJobStatus st jobId a)"] by simp
  qed
qed

text \<open>
  C3: a job in the state \<open>completed\<close>, \<open>failed\<close> or \<open>cancelled\<close> has no transition, and every
  later observation of it finds the same state. These are the three statuses on which the
  polling client stops: a chain that is answered with one of them issues no poll after
  that answer, whatever the backend would answer later.
\<close>

theorem terminal_status_is_final:
  "(terminal s \<longrightarrow>
      transitions s = [] \<and>
      (job_history (s # later_states) \<longrightarrow> (\<forall>s' \<in> set later_states. s' = s))) \<and>
   terminal s =
     (state_name s = js ''completed'' \<or> state_name s = js ''failed'' \<or>
      state_name s = js ''cancelled'') \<and>
   (status job = Some (js ''completed'') \<or> status job = Some (js ''failed'') \<or>
    status job = Some (js ''cancelled'') \<longrightarrow>
      poll_chain env st jobId (earlier @ Json_object job # later) =
        poll_chain env st jobId (earlier @ [Json_object job]) \<and>
      length (snd (poll_chain env st jobId (earlier @ Json_object job # later)))
        \<le> length earlier + 1)"
proof (intro conjI impI)
  assume "terminal s"
  then show "transitions s = []"
    by (rule terminal_transitions)
next
  assume "terminal s" and "job_history (s # later_states)"
  then show "\<forall>s' \<in> set later_states. s' = s"
    using job_history_terminal by blast
next
  show "terminal s =
     (state_name s = js ''completed'' \<or> state_name s = js ''failed'' \<or>
      state_name s = js ''cancelled'')"
    using terminal_iff_client [of s] by (simp add: is_terminal_status_def)
next
  assume "status job = Some (js ''completed'') \<or> status job = Some (js ''failed'') \<or>
    status job = Some (js ''cancelled'')"
  then have stop: "snd (pollJobStatus st jobId (Json_object job)) = None"
    by (simp add: is_terminal_status_def)
  show "poll_chain env st jobId (earlier @ Json_object job # later) =
        poll_chain env st jobId (earlier @ [Json_object job])"
    using stop by (rule poll_chain_after_stop)
  show "length (snd (poll_chain env st jobId (earlier @ Json_object job # later)))
        \<le> length earlier + 1"
    using stop by (rule poll_chain_polls_until_stop)
qed

text \<open>
  The theorem at the state \<open>failed\<close>, which no history leaves, and at a chain answered
  \<open>reporting\<close>, \<open>completed\<close>, \<open>reporting\<close>: two requests are issued.
\<close>

theorem terminal_status_is_final_witness:
  "transitions Failed = [] \<and>
   job_history [Reporting, Failed, Failed] \<and>
   \<not> job_history [Failed, Completed] \<and>
   snd (poll_chain None initial_state (js ''j1'')
     [Json_object \<lparr>status = Some (js ''reporting''), progress = None, pages_scraped = None,
                   summaries = None, report = None, job_error = None\<rparr>,
      Json_object \<lparr>status = Some (js ''completed''), progress = None, pages_scraped = None,
                   summaries = None, report = Some (js ''# Report''), job_error = None\<rparr>,
      Json_object \<lparr>status = Some (js ''reporting''), progress = None, pages_scraped = None,
                   summaries = None, report = None, job_error = None\<rparr>]) =
   [GET (js ''http://localhost:8001/research/j1''), GET (js ''http://localhost:8001/research/j1'')]"
proof -
  let ?running = "\<lparr>status = Some (js ''reporting''), progress = None, pages_scraped = None,
                   summaries = None, report = None, job_error = None\<rparr>"
  let ?finished = "\<lparr>status = Some (js ''completed''), progress = None, pages_scraped = None,
                   summaries = None, report = Some (js ''# Report''), job_error = None\<rparr>"
  have finished: "status ?finished = Some (js ''completed'')"
    by simp
  have failed: "terminal Failed"
    by simp
  from terminal_status_is_final [of Failed "[Completed]" ?finished None initial_state "js ''j1''"
      "[Json_object ?running]" "[Json_object ?running]"] failed finished
  have "transitions Failed = []"
    and "job_history [Failed, Completed] \<longrightarrow> (\<forall>s' \<in> set [Completed]. s' = Failed)"
    and "poll_chain None initial_state (js ''j1'')
          ([Json_object ?running] @ Json_object ?finished # [Json_object ?running]) =
        poll_chain None initial_state (js ''j1'') ([Json_object ?running] @ [Json_object ?finished])"
    by blast+
  moreover have "snd (poll_chain None initial_state (js ''j1'')
      ([Json_object ?running] @ [Json_object ?finished])) =
    [GET (js ''http://localhost:8001/research/j1''), GET (js ''http://localhost:8001/research/j1'')]"
    by (simp add: is_terminal_status_def pollJobStatus_request_def API_BASE_def js_def)
  moreover have "job_history [Reporting, Failed, Failed]"
    by (simp add: transitions_def)
  ultimately show ?thesis by simp
qed

end
